theory Spec2Isabelle
  imports Main
begin

section \<open>JavaScript values, strings and plain objects\<close>

text \<open>
  The bound values of a query and the cells of a row are numbers, strings, booleans or
  \<open>null\<close>. Numbers are modelled by \<open>int\<close>; \<open>Date\<close> values do not occur in any
  property established below and are left out.
\<close>

datatype jsval = Num int | Str string | Bool bool | Null

text \<open>Decimal rendering of a number inside a template literal.\<close>

definition digit_char :: "nat \<Rightarrow> char" where
  "digit_char n = ''0123456789'' ! n"

fun decimal :: "nat \<Rightarrow> string" where
  "decimal n = (if 10 \<le> n then decimal (n div 10) else []) @ [digit_char (n mod 10)]"

declare decimal.simps [simp del]

definition number_text :: "int \<Rightarrow> string" where
  "number_text i = (if 0 \<le> i then decimal (nat i) else CHR ''-'' # decimal (nat (- i)))"

text \<open>\<open>Array.prototype.join\<close> on an array of strings.\<close>

fun join :: "string \<Rightarrow> string list \<Rightarrow> string" where
  "join delim [] = []"
| "join delim [x] = x"
| "join delim (x # y # ys) = x @ delim @ join delim (y # ys)"

text \<open>
  A plain object is the list of its own enumerable properties in the order in which they
  were first assigned. \<open>Object.keys\<close>, \<open>Object.values\<close> and \<open>Object.entries\<close> do not
  enumerate in that order: ECMAScript lists the array-index keys first (canonical decimal
  strings below \<open>2^32 - 1\<close>), in ascending numeric order, and only then the other string
  keys in the order of their creation.
\<close>

type_synonym 'a jsobject = "(string \<times> 'a) list"

definition is_digit :: "char \<Rightarrow> bool" where
  "is_digit c \<longleftrightarrow> c \<in> set ''0123456789''"

definition digit_val :: "char \<Rightarrow> nat" where
  "digit_val c = of_char c - 48"

definition nat_of_digits :: "string \<Rightarrow> nat" where
  "nat_of_digits s = foldl (\<lambda>a c. 10 * a + digit_val c) 0 s"

definition is_array_index :: "string \<Rightarrow> bool" where
  "is_array_index s \<longleftrightarrow>
     s \<noteq> [] \<and> list_all is_digit s \<and> (if hd s = CHR ''0'' then s = ''0'' else True) \<and>
     nat_of_digits s < 4294967295"

definition own_entries :: "'a jsobject \<Rightarrow> (string \<times> 'a) list" where
  "own_entries obj =
     sort_key (\<lambda>e. nat_of_digits (fst e)) (filter (\<lambda>e. is_array_index (fst e)) obj) @
     filter (\<lambda>e. \<not> is_array_index (fst e)) obj"

definition object_keys :: "'a jsobject \<Rightarrow> string list" where
  "object_keys obj = map fst (own_entries obj)"

definition object_values :: "'a jsobject \<Rightarrow> 'a list" where
  "object_values obj = map snd (own_entries obj)"

text \<open>\<open>obj[k] = v\<close>: an existing property keeps its place, a new one is added last.\<close>

fun set_property :: "'a jsobject \<Rightarrow> string \<Rightarrow> 'a \<Rightarrow> 'a jsobject" where
  "set_property [] k v = [(k, v)]"
| "set_property ((k', v') # rest) k v =
     (if k' = k then (k, v) # rest else (k', v') # set_property rest k v)"

text \<open>
  A thrown value: an \<open>Error\<close> of the program itself, or whatever the driver rejects with
  (its errors carry a \<open>code\<close>; \<open>sqlMessage\<close> is read by the program and set by no
  PostgreSQL driver).
\<close>

record js_error =
  err_name :: string
  err_message :: string
  err_code :: "string option"
  err_sqlMessage :: "string option"

definition Error :: "string \<Rightarrow> js_error" where
  "Error msg = \<lparr>err_name = ''Error'', err_message = msg, err_code = None, err_sqlMessage = None\<rparr>"

definition TypeError :: "string \<Rightarrow> js_error" where
  "TypeError msg =
     \<lparr>err_name = ''TypeError'', err_message = msg, err_code = None, err_sqlMessage = None\<rparr>"

text \<open>\<open>Error.prototype.toString\<close>, which a template literal applies to an error.\<close>

definition error_text :: "js_error \<Rightarrow> string" where
  "error_text e =
     (if err_name e = [] then err_message e
      else if err_message e = [] then err_name e
      else err_name e @ '': '' @ err_message e)"

text \<open>\<open>a ?? b\<close> on an optional value.\<close>

definition nullish :: "'a option \<Rightarrow> 'a \<Rightarrow> 'a" where
  "nullish a b = (case a of None \<Rightarrow> b | Some v \<Rightarrow> v)"

section \<open>Placeholder\<close>

record Placeholder =
  counter :: nat

definition new_Placeholder :: Placeholder where
  "new_Placeholder = \<lparr>counter = 0\<rparr>"

text \<open>
  \<open>generate\<close> is overloaded on its first argument: a number (positional mode) or an object
  (assignment mode). The delimiter defaults to a comma and a blank.
\<close>

datatype 'a generate_param = Count int | Fields "'a jsobject"

definition delim_or_default :: "string option \<Rightarrow> string" where
  "delim_or_default delim = nullish delim '', ''"

text \<open>\<open>for (let i = this.counter; i < this.counter + count; i++) result.push(`$${i + 1}`)\<close>\<close>

function generate_count_loop :: "int \<Rightarrow> int \<Rightarrow> string list \<Rightarrow> string list" where
  "generate_count_loop i bound result =
     (if i < bound
      then generate_count_loop (i + 1) bound (result @ [''$'' @ number_text (i + 1)])
      else result)"
  by pat_completeness auto
termination
  by (relation "measure (\<lambda>(i, bound, result). nat (bound - i))") auto

declare generate_count_loop.simps [simp del]

text \<open>\<open>for (const key of keys) { result.push(`${key}=$${this.counter + 1}`); this.counter++; }\<close>\<close>

fun generate_keys_loop ::
  "string list \<Rightarrow> Placeholder \<Rightarrow> string list \<Rightarrow> string list \<times> Placeholder" where
  "generate_keys_loop [] p result = (result, p)"
| "generate_keys_loop (key # keys) p result =
     generate_keys_loop keys (p\<lparr>counter := counter p + 1\<rparr>)
       (result @ [key @ ''=$'' @ decimal (counter p + 1)])"

fun generate ::
  "Placeholder \<Rightarrow> 'a generate_param \<Rightarrow> string option \<Rightarrow> string \<times> Placeholder" where
  "generate p (Count count) delim =
     (join (delim_or_default delim)
        (generate_count_loop (int (counter p)) (int (counter p) + count) []), p)"
| "generate p (Fields obj) delim =
     (let (result, p') = generate_keys_loop (object_keys obj) p []
      in (join (delim_or_default delim) result, p'))"

text \<open>
  \<open>values\<close> walks an array whose entries are objects, \<open>undefined\<close> or (outside the declared
  types) \<open>null\<close>. \<open>undefined\<close> is skipped; \<open>Object.values(null)\<close> raises a \<open>TypeError\<close>.
\<close>

datatype 'a object_arg = Undefined | NullArg | Object "'a jsobject"

fun values_loop :: "'a object_arg list \<Rightarrow> 'a list \<Rightarrow> js_error + 'a list" where
  "values_loop [] result = Inr result"
| "values_loop (Undefined # objs) result = values_loop objs result"
| "values_loop (NullArg # objs) result =
     Inl (TypeError ''Cannot convert undefined or null to object'')"
| "values_loop (Object obj # objs) result = values_loop objs (result @ object_values obj)"

definition values_of :: "'a object_arg list \<Rightarrow> js_error + 'a list" where
  "values_of objs = values_loop objs []"


text \<open>The entries that \<open>values\<close> does not skip.\<close>

fun defined_objects :: "'a object_arg list \<Rightarrow> 'a jsobject list" where
  "defined_objects [] = []"
| "defined_objects (Object obj # objs) = obj # defined_objects objs"
| "defined_objects (other # objs) = defined_objects objs"

text \<open>
  A sequence of \<open>generate\<close> calls on one instance, with the strings they return; and, for a
  sequence of assignment-mode calls, the arrays \<open>result\<close> that the calls fill before joining
  them.
\<close>

fun generate_calls ::
  "Placeholder \<Rightarrow> ('a generate_param \<times> string option) list \<Rightarrow> string list \<times> Placeholder" where
  "generate_calls p [] = ([], p)"
| "generate_calls p ((param, delim) # calls) =
     (let (text, p') = generate p param delim;
          (texts, p'') = generate_calls p' calls
      in (text # texts, p''))"

fun keys_of_param :: "'a generate_param \<Rightarrow> nat" where
  "keys_of_param (Count count) = 0"
| "keys_of_param (Fields obj) = length obj"

fun assignment_calls ::
  "Placeholder \<Rightarrow> 'a jsobject list \<Rightarrow> string list list \<times> Placeholder" where
  "assignment_calls p [] = ([], p)"
| "assignment_calls p (obj # objs) =
     (let (result, p') = generate_keys_loop (object_keys obj) p [];
          (results, p'') = assignment_calls p' objs
      in (result # results, p''))"

definition positional_text :: "int \<Rightarrow> string" where
  "positional_text k = ''$'' @ number_text k"

definition assignment_text :: "string \<Rightarrow> nat \<Rightarrow> string" where
  "assignment_text key k = key @ ''=$'' @ decimal k"

section \<open>Properties of the placeholder generator\<close>

lemma generate_count_loop_eq:
  "generate_count_loop i bound result = result @ map positional_text [i + 1 .. bound]"
proof (induction i bound result rule: generate_count_loop.induct)
  case (1 i bound result)
  show ?case
  proof (cases "i < bound")
    case True
    then have "[i + 1 .. bound] = (i + 1) # [i + 1 + 1 .. bound]"
      by (simp add: upto_rec1)
    with True 1 show ?thesis
      by (simp add: generate_count_loop.simps [of i] positional_text_def)
  next
    case False
    then show ?thesis
      by (simp add: generate_count_loop.simps [of i])
  qed
qed

lemma generate_keys_loop_eq:
  "generate_keys_loop keys p result =
     (result @ map2 assignment_text keys [counter p + 1 ..< counter p + 1 + length keys],
      p\<lparr>counter := counter p + length keys\<rparr>)"
proof (induction keys arbitrary: p result)
  case Nil
  then show ?case by simp
next
  case (Cons key keys)
  have "[counter p + 1 ..< counter p + 1 + length (key # keys)] =
        (counter p + 1) # [counter p + 1 + 1 ..< counter p + 1 + 1 + length keys]"
    by (simp add: upt_rec)
  with Cons show ?case by (simp add: assignment_text_def)
qed

lemma length_own_entries: "length (own_entries obj) = length obj"
  by (simp add: own_entries_def sum_length_filter_compl)

lemma length_object_keys: "length (object_keys obj) = length obj"
  by (simp add: object_keys_def length_own_entries)

lemma length_object_values: "length (object_values obj) = length obj"
  by (simp add: object_values_def length_own_entries)

lemma own_entries_insertion_order:
  "list_all (\<lambda>e. \<not> is_array_index (fst e)) obj \<Longrightarrow> own_entries obj = obj"
  by (simp add: own_entries_def list_all_iff)

lemma zip_keys_values: "zip (object_keys obj) (object_values obj) = own_entries obj"
  by (simp add: object_keys_def object_values_def zip_map_fst_snd)

lemma map2_upt_append:
  "map2 f (xs @ ys) [a ..< a + (length xs + length ys)] =
     map2 f xs [a ..< a + length xs] @ map2 f ys [a + length xs ..< a + length xs + length ys]"
proof -
  have "[a ..< a + (length xs + length ys)] =
        [a ..< a + length xs] @ [a + length xs ..< a + length xs + length ys]"
    using upt_add_eq_append [of a "a + length xs" "length ys"] by (simp add: add.assoc)
  moreover have "length xs = length [a ..< a + length xs]" by simp
  ultimately show ?thesis by (simp del: upt_Suc)
qed

lemma length_concat_object_keys:
  "length (concat (map object_keys objs)) = length (concat objs)"
  by (induction objs) (simp_all add: length_object_keys)

lemma length_concat_object_values:
  "length (concat (map object_values objs)) = length (concat objs)"
  by (induction objs) (simp_all add: length_object_values)

lemma assignment_calls_eq:
  "concat (fst (assignment_calls p objs)) =
     map2 assignment_text (concat (map object_keys objs))
       [counter p + 1 ..< counter p + 1 + length (concat objs)] \<and>
   snd (assignment_calls p objs) = p\<lparr>counter := counter p + length (concat objs)\<rparr>"
proof (induction objs arbitrary: p)
  case Nil
  then show ?case by simp
next
  case (Cons obj objs)
  let ?p' = "p\<lparr>counter := counter p + length obj\<rparr>"
  have step: "generate_keys_loop (object_keys obj) p [] =
      (map2 assignment_text (object_keys obj) [counter p + 1 ..< counter p + 1 + length obj], ?p')"
    by (simp add: generate_keys_loop_eq length_object_keys)
  have unfold: "assignment_calls p (obj # objs) =
      (fst (generate_keys_loop (object_keys obj) p []) # fst (assignment_calls ?p' objs),
       snd (assignment_calls ?p' objs))"
    by (simp add: step split_beta)
  have idx: "map2 assignment_text (object_keys obj @ concat (map object_keys objs))
       [counter p + 1 ..<
        counter p + 1 + (length (object_keys obj) + length (concat (map object_keys objs)))] =
     map2 assignment_text (object_keys obj)
       [counter p + 1 ..< counter p + 1 + length (object_keys obj)] @
     map2 assignment_text (concat (map object_keys objs))
       [counter p + 1 + length (object_keys obj) ..<
        counter p + 1 + length (object_keys obj) + length (concat (map object_keys objs))]"
    by (rule map2_upt_append)
  have ih1: "concat (fst (assignment_calls ?p' objs)) =
     map2 assignment_text (concat (map object_keys objs))
       [counter p + 1 + length obj ..< counter p + 1 + length obj + length (concat objs)]"
    using Cons [of ?p'] by (simp add: add.commute add.left_commute)
  have ih2: "snd (assignment_calls ?p' objs) =
      p\<lparr>counter := counter p + length (concat (obj # objs))\<rparr>"
    using Cons [of ?p'] by (simp add: add.assoc)
  have "concat (fst (assignment_calls p (obj # objs))) =
      map2 assignment_text (object_keys obj) [counter p + 1 ..< counter p + 1 + length obj] @
      map2 assignment_text (concat (map object_keys objs))
       [counter p + 1 + length obj ..< counter p + 1 + length obj + length (concat objs)]"
    by (simp only: unfold step fst_conv concat.simps ih1)
  also have "\<dots> = map2 assignment_text (concat (map object_keys (obj # objs)))
       [counter p + 1 ..< counter p + 1 + length (concat (obj # objs))]"
    using idx
    by (simp only: length_concat_object_keys length_object_keys list.map concat.simps
        length_append)
  finally show ?case
    using ih2 by (simp only: unfold snd_conv simp_thms)
qed

lemma values_loop_eq:
  "NullArg \<notin> set objs \<Longrightarrow>
   values_loop objs result = Inr (result @ concat (map object_values (defined_objects objs)))"
  by (induction objs result rule: values_loop.induct) simp_all


lemma generate_counter:
  "snd (generate p param delim) = p\<lparr>counter := counter p + keys_of_param param\<rparr>"
  by (cases param) (simp_all add: generate_keys_loop_eq length_object_keys)

lemma generate_calls_counter:
  "snd (generate_calls p calls) =
     p\<lparr>counter := counter p + sum_list (map (keys_of_param \<circ> fst) calls)\<rparr>"
proof (induction calls arbitrary: p)
  case Nil
  then show ?case by simp
next
  case (Cons call calls)
  obtain param delim where call: "call = (param, delim)" by (cases call)
  show ?case
    using Cons [of "snd (generate p param delim)"]
    by (simp add: call split_beta generate_counter add.assoc)
qed

lemma generate_calls_assignments:
  "fst (generate_calls p (map (\<lambda>obj. (Fields obj, delim)) objs)) =
     map (join (delim_or_default delim)) (fst (assignment_calls p objs))"
proof (induction objs arbitrary: p)
  case Nil
  then show ?case by simp
next
  case (Cons obj objs)
  show ?case
    using Cons [of "snd (generate_keys_loop (object_keys obj) p [])"]
    by (simp add: split_beta)
qed

lemmas js_eval =
  own_entries_def object_keys_def object_values_def is_array_index_def is_digit_def
  nat_of_digits_def digit_val_def digit_char_def decimal.simps number_text_def
  delim_or_default_def nullish_def positional_text_def assignment_text_def

text \<open>
  Claim C3, as the code has it. In positional mode \<open>generate(count, delim)\<close> returns the
  placeholders \<open>$k\<close> for \<open>k\<close> from \<open>counter + 1\<close> to \<open>counter + count\<close> joined by the
  delimiter (there are \<open>count\<close> of them, none when \<open>count\<close> is negative) and leaves the
  instance as it was. In assignment mode \<open>generate(obj, delim)\<close> returns \<open>key=$k\<close> for the
  keys in the order of \<open>Object.keys\<close>, numbered from \<open>counter + 1\<close>, and advances the counter
  by the number of keys. So after any sequence of calls the counter has advanced by the
  number of keys of its assignment-mode calls. The strings of a sequence of assignment-mode
  calls on a new instance are the joined arrays of the calls, and these arrays carry, read
  one after the other, exactly the indices \<open>1, 2, \<dots>, N\<close>, where \<open>N\<close> is the total number of
  keys.
\<close>

theorem generate_indices_and_counter:
  "generate p (Count count :: 'a generate_param) delim =
     (join (delim_or_default delim)
        (map positional_text [int (counter p) + 1 .. int (counter p) + count]), p) \<and>
   length (map positional_text [int (counter p) + 1 .. int (counter p) + count]) = nat count \<and>
   generate p (Fields (obj :: 'a jsobject)) delim =
     (join (delim_or_default delim)
        (map2 assignment_text (object_keys obj) [counter p + 1 ..< counter p + 1 + length obj]),
      p\<lparr>counter := counter p + length obj\<rparr>) \<and>
   length (object_keys obj) = length obj \<and>
   snd (generate_calls p (calls :: ('a generate_param \<times> string option) list)) =
     p\<lparr>counter := counter p + sum_list (map (keys_of_param \<circ> fst) calls)\<rparr> \<and>
   fst (generate_calls new_Placeholder (map (\<lambda>obj. (Fields obj, delim)) objs)) =
     map (join (delim_or_default delim))
       (fst (assignment_calls new_Placeholder (objs :: 'a jsobject list))) \<and>
   concat (fst (assignment_calls new_Placeholder objs)) =
     map2 assignment_text (concat (map object_keys objs)) [1 ..< 1 + length (concat objs)] \<and>
   counter (snd (assignment_calls new_Placeholder objs)) = length (concat objs)"
proof -
  have positional: "generate p (Count count :: 'a generate_param) delim =
     (join (delim_or_default delim)
        (map positional_text [int (counter p) + 1 .. int (counter p) + count]), p)"
    by (simp add: generate_count_loop_eq)
  have assignment: "generate p (Fields obj) delim =
     (join (delim_or_default delim)
        (map2 assignment_text (object_keys obj) [counter p + 1 ..< counter p + 1 + length obj]),
      p\<lparr>counter := counter p + length obj\<rparr>)"
    by (simp add: generate_keys_loop_eq length_object_keys)
  have arrays: "concat (fst (assignment_calls new_Placeholder objs)) =
     map2 assignment_text (concat (map object_keys objs)) [1 ..< 1 + length (concat objs)]"
    using assignment_calls_eq [of new_Placeholder objs] by (simp add: new_Placeholder_def)
  have final: "counter (snd (assignment_calls new_Placeholder objs)) = length (concat objs)"
    using assignment_calls_eq [of new_Placeholder objs] by (simp add: new_Placeholder_def)
  have count: "length (map positional_text [int (counter p) + 1 .. int (counter p) + count]) =
      nat count"
    by simp
  show ?thesis
    using positional assignment arrays final count length_object_keys [of obj]
      generate_calls_counter [of p calls] generate_calls_assignments [of new_Placeholder delim objs]
    by blast
qed

theorem generate_indices_and_counter_witness:
  "generate \<lparr>counter = 3\<rparr> (Count 2 :: jsval generate_param) (Some ''-'') =
     (''$4-$5'', \<lparr>counter = 3\<rparr>) \<and>
   generate \<lparr>counter = 3\<rparr> (Fields [(''name'', Str ''x''), (''age'', Num 7)]) None =
     (''name=$4, age=$5'', \<lparr>counter = 5\<rparr>) \<and>
   generate_calls new_Placeholder
     [(Fields [(''name'', Str ''x''), (''age'', Num 7)], None), (Count 2, None),
      (Fields [(''id'', Num 1)], Some '' AND '')] =
     ([''name=$1, age=$2'', ''$3, $4'', ''id=$3''], \<lparr>counter = 3\<rparr>) \<and>
   concat (fst (assignment_calls new_Placeholder
      [[(''name'', Str ''x''), (''age'', Num 7)], [(''id'', Num 1)]])) =
     [''name=$1'', ''age=$2'', ''id=$3''] \<and>
   counter (snd (assignment_calls new_Placeholder
      [[(''name'', Str ''x''), (''age'', Num 7)], [(''id'', Num 1)]])) = 3"
  using generate_indices_and_counter [of "\<lparr>counter = 3\<rparr>" 2 "Some ''-''"
      "[(''name'', Str ''x''), (''age'', Num 7)]"
      "[(Fields [(''name'', Str ''x''), (''age'', Num 7)], None), (Count 2, None),
        (Fields [(''id'', Num 1)], Some '' AND '')]"
      "[[(''name'', Str ''x''), (''age'', Num 7)], [(''id'', Num 1)]]"]
    generate_indices_and_counter [of "\<lparr>counter = 3\<rparr>" 2 None
      "[(''name'', Str ''x''), (''age'', Num 7)]" "[]"
      "[[(''name'', Str ''x''), (''age'', Num 7)], [(''id'', Num 1)]]"]
  by (simp add: js_eval new_Placeholder_def generate_count_loop.simps upto.simps upt_rec)

text \<open>
  The claim's wording, keys in insertion order, fails for a key that is an array index: in
  \<open>{b: 1, "1": 2}\<close> the key \<open>b\<close> was inserted first, and \<open>Object.keys\<close> lists \<open>1\<close> first.
\<close>

theorem generate_insertion_order_counterexample:
  "fst (generate new_Placeholder (Fields [(''b'', Num 1), (''1'', Num 2)]) None) = ''1=$1, b=$2'' \<and>
   fst (generate new_Placeholder (Fields [(''b'', Num 1), (''1'', Num 2)]) None) \<noteq> ''b=$1, 1=$2''"
  by (simp add: new_Placeholder_def js_eval)


lemma zip_concat_keys_values:
  "zip (concat (map object_keys objs)) (concat (map object_values objs)) =
     concat (map own_entries objs)"
proof (induction objs)
  case Nil
  then show ?case by simp
next
  case (Cons obj objs)
  have "length (object_keys obj) = length (object_values obj)"
    by (simp add: length_object_keys length_object_values)
  then show ?case
    using Cons by (simp add: zip_append zip_keys_values)
qed

lemma length_assignment_calls:
  "length (concat (fst (assignment_calls p objs))) = length (concat objs)"
proof -
  have "length (concat (fst (assignment_calls p objs))) =
      min (length (concat (map object_keys objs)))
        (length [counter p + 1 ..< counter p + 1 + length (concat objs)])"
    by (simp only: assignment_calls_eq length_map length_zip)
  then show ?thesis
    by (simp only: length_concat_object_keys length_upt add_diff_cancel_left' min.idem)
qed

text \<open>
  Claim C8, as the code has it. For an array whose entries are objects or \<open>undefined\<close>,
  \<open>values\<close> returns the values of the entries that are objects, object by object in
  argument order and per object in the order of \<open>Object.values\<close>; an \<open>undefined\<close> entry
  contributes nothing. The list has one value per key of the defined objects, which is the
  number of placeholders the assignment-mode calls for those objects emit, and the values
  stand in the order of the keys those calls walk.
\<close>

theorem values_flatten_and_align:
  "NullArg \<notin> set objs \<Longrightarrow>
   values_of objs = Inr (concat (map object_values (defined_objects objs))) \<and>
   length (concat (map object_values (defined_objects objs))) =
     length (concat (defined_objects objs)) \<and>
   length (concat (fst (assignment_calls new_Placeholder (defined_objects objs)))) =
     length (concat (map object_values (defined_objects objs))) \<and>
   zip (concat (map object_keys (defined_objects objs)))
       (concat (map object_values (defined_objects objs))) =
     concat (map own_entries (defined_objects objs))"
  by (simp add: values_of_def values_loop_eq length_concat_object_values
      length_assignment_calls zip_concat_keys_values)

theorem values_flatten_and_align_witness:
  "NullArg \<notin> set [Object [(''name'', Str ''x''), (''age'', Num 7)], Undefined] \<and>
   values_of [Object [(''name'', Str ''x''), (''age'', Num 7)], Undefined] =
     Inr [Str ''x'', Num 7] \<and>
   length (concat (fst (assignment_calls new_Placeholder
      (defined_objects [Object [(''name'', Str ''x''), (''age'', Num 7)], Undefined])))) = 2"
proof -
  have h: "NullArg \<notin> set [Object [(''name'', Str ''x''), (''age'', Num 7)], Undefined]"
    by simp
  show ?thesis
    using h values_flatten_and_align [OF h] by (simp add: js_eval)
qed

text \<open>
  The claim's wording, values in key insertion order, fails for a key that is an array
  index: for \<open>{b: 1, "1": 2}\<close> the values come out as \<open>2, 1\<close>.
\<close>

theorem values_insertion_order_counterexample:
  "values_of [Object [(''b'', Num 1), (''1'', Num 2)]] = Inr [Num 2, Num 1] \<and>
   values_of [Object [(''b'', Num 1), (''1'', Num 2)]] \<noteq>
     Inr (map snd [(''b'', Num 1), (''1'', Num 2)])"
  by (simp add: values_of_def js_eval)


section \<open>The driver and the world\<close>

text \<open>
  The PostgreSQL driver is outside the repository. Its pool hands out connections and runs
  statements; every call either resolves or rejects. What it answers may depend on everything
  that happened before, so it is a pair of functions of the history of events, and the
  history is the part of the world the program appends to.
\<close>

type_synonym connection = nat
type_synonym ref = nat
type_synonym row = "jsval jsobject"

record QueryResult =
  rows :: "row list"
  rowCount :: nat

datatype message = Text string | Thrown js_error

record DbErrorResult =
  code :: string
  message :: message
  query :: string
  bound_values :: "jsval list"

datatype DbResult = DbSuccess QueryResult | DbFailed DbErrorResult

datatype target = ThePool | Client connection

datatype log_line =
    Line string
  | QueryError DbErrorResult
  | ShownQuery string "jsval list"
  | DbError string

datatype event =
    Connected connection
  | ConnectFailed js_error
  | Executed target string "jsval list" "js_error + QueryResult"
  | Released connection
  | Logged log_line

record driver =
  connect :: "event list \<Rightarrow> js_error + connection"
  execute :: "event list \<Rightarrow> target \<Rightarrow> string \<Rightarrow> jsval list \<Rightarrow> js_error + QueryResult"

record Transaction =
  conn :: "connection option"
  rollbackOnError :: bool

text \<open>
  \<open>Transaction\<close> instances and the \<open>where\<close> objects of the model operations are shared with
  the caller and changed in place, so they live in stores indexed by reference.
\<close>

record world =
  trace :: "event list"
  transactions :: "ref \<Rightarrow> Transaction"
  transaction_count :: nat
  objects :: "ref \<Rightarrow> jsval jsobject"
  object_count :: nat

definition console_log :: "log_line \<Rightarrow> world \<Rightarrow> world" where
  "console_log l w = w\<lparr>trace := trace w @ [Logged l]\<rparr>"

definition pool_connect :: "driver \<Rightarrow> world \<Rightarrow> (js_error + connection) \<times> world" where
  "pool_connect drv w =
     (case connect drv (trace w) of
        Inl error \<Rightarrow> (Inl error, w\<lparr>trace := trace w @ [ConnectFailed error]\<rparr>)
      | Inr c \<Rightarrow> (Inr c, w\<lparr>trace := trace w @ [Connected c]\<rparr>))"

definition driver_query ::
  "driver \<Rightarrow> target \<Rightarrow> string \<Rightarrow> jsval list \<Rightarrow> world \<Rightarrow> (js_error + QueryResult) \<times> world" where
  "driver_query drv tgt q vs w =
     (let r = execute drv (trace w) tgt q vs
      in (r, w\<lparr>trace := trace w @ [Executed tgt q vs r]\<rparr>))"

text \<open>
  \<open>conn.release()\<close>. The pool refuses a second release of a client it already has back; a
  transaction releases the connection it holds once and forgets it in the same step, so the
  release is taken to succeed.
\<close>

definition release :: "connection \<Rightarrow> world \<Rightarrow> world" where
  "release c w = w\<lparr>trace := trace w @ [Released c]\<rparr>"

definition set_conn :: "ref \<Rightarrow> connection option \<Rightarrow> world \<Rightarrow> world" where
  "set_conn this c w =
     w\<lparr>transactions := (transactions w)(this := (transactions w this)\<lparr>conn := c\<rparr>)\<rparr>"

text \<open>\<open>this.conn!.query(query, values)\<close>: the \<open>!\<close> is erased, a \<open>null\<close> connection throws.\<close>

definition conn_query ::
  "driver \<Rightarrow> ref \<Rightarrow> string \<Rightarrow> jsval list \<Rightarrow> world \<Rightarrow> (js_error + QueryResult) \<times> world" where
  "conn_query drv this q vs w =
     (case conn (transactions w this) of
        None \<Rightarrow> (Inl (TypeError ''Cannot read properties of null (reading 'query')''), w)
      | Some c \<Rightarrow> driver_query drv (Client c) q vs w)"

section \<open>Pool\<close>

definition queryHandler ::
  "string \<Rightarrow> jsval list \<Rightarrow> bool \<Rightarrow> (world \<Rightarrow> (js_error + QueryResult) \<times> world) \<Rightarrow>
   (js_error \<Rightarrow> world \<Rightarrow> world) option \<Rightarrow> world \<Rightarrow> DbResult \<times> world" where
  "queryHandler q vs showError tryHandler errorHandler w =
     (let errorHandler' = nullish errorHandler (\<lambda>error w. w)
      in case tryHandler w of
           (Inr result, w1) \<Rightarrow> (DbSuccess result, w1)
         | (Inl error, w1) \<Rightarrow>
             (let w2 = errorHandler' error w1;
                  result = \<lparr>code = nullish (err_code error) ''ER_INTERNAL_ERROR'',
                            message = (case err_sqlMessage error of
                                         None \<Rightarrow> Thrown error | Some m \<Rightarrow> Text m),
                            query = q,
                            bound_values = vs\<rparr>;
                  w3 = (if showError then console_log (QueryError result) w2 else w2)
              in (DbFailed result, w3)))"

record TransactionOptions =
  t_rollbackOnError :: "bool option"

definition new_Transaction :: "TransactionOptions option \<Rightarrow> world \<Rightarrow> ref \<times> world" where
  "new_Transaction options w =
     (let this = transaction_count w
      in (this,
          w\<lparr>transactions := (transactions w)
               (this := \<lparr>conn = None,
                         rollbackOnError = nullish (Option.bind options t_rollbackOnError) False\<rparr>),
            transaction_count := this + 1\<rparr>))"

text \<open>
  \<open>end\<close> is declared \<open>async\<close> and called without \<open>await\<close>; its body has no \<open>await\<close>, so it
  has run to its end when the call returns.
\<close>

definition Transaction_end :: "ref \<Rightarrow> world \<Rightarrow> world" where
  "Transaction_end this w =
     (case conn (transactions w this) of
        None \<Rightarrow> w
      | Some c \<Rightarrow> set_conn this None (release c w))"

definition Transaction_begin :: "driver \<Rightarrow> ref \<Rightarrow> connection \<Rightarrow> bool option \<Rightarrow> world \<Rightarrow> world" where
  "Transaction_begin drv this c showError w =
     (let showError' = nullish showError True
      in if conn (transactions w this) \<noteq> None
         then console_log
                (Line ''Failed to begin transaction. Connection already established'') w
         else (let w1 = set_conn this (Some c) w;
                   q = ''COMMIT;''
               in snd (queryHandler q [] showError' (conn_query drv this q []) None w1)))"

definition Transaction_commit :: "driver \<Rightarrow> ref \<Rightarrow> bool option \<Rightarrow> world \<Rightarrow> world" where
  "Transaction_commit drv this showError w =
     (let showError' = nullish showError True
      in if conn (transactions w this) = None
         then console_log
                (Line ''Failed to commit transaction. Connection is not established'') w
         else (let q = ''COMMIT;'';
                   w1 = snd (queryHandler q [] showError' (conn_query drv this q []) None w)
               in Transaction_end this w1))"

definition Transaction_rollback :: "driver \<Rightarrow> ref \<Rightarrow> bool option \<Rightarrow> world \<Rightarrow> world" where
  "Transaction_rollback drv this showError w =
     (let showError' = nullish showError True
      in if conn (transactions w this) = None
         then console_log
                (Line ''Failed to commit transaction. Connection is not established'') w
         else (let q = ''ROLLBACK'';
                   w1 = snd (queryHandler q [] showError' (conn_query drv this q []) None w)
               in Transaction_end this w1))"

record DbQueryOptions =
  o_values :: "jsval list option"
  o_showError :: "bool option"
  o_showQuery :: "bool option"
  o_transaction :: "ref option"

text \<open>
  The body of \<open>Pool.query\<close>'s \<open>tryHandler\<close>. With a transaction that holds no connection it
  first takes one from the pool and begins; without a transaction the optional call is
  skipped together with its argument, and the statement goes to the pool itself.
\<close>

definition query_tryHandler ::
  "driver \<Rightarrow> string \<Rightarrow> jsval list \<Rightarrow> bool \<Rightarrow> ref option \<Rightarrow> world \<Rightarrow>
   (js_error + QueryResult) \<times> world" where
  "query_tryHandler drv q vs showQuery transaction w =
     (case transaction of
        None \<Rightarrow>
          driver_query drv ThePool q vs
            (if showQuery then console_log (ShownQuery q vs) w else w)
      | Some t \<Rightarrow>
          (case (if conn (transactions w t) = None
                 then (case pool_connect drv w of
                         (Inl error, w1) \<Rightarrow> Inl (error, w1)
                       | (Inr c, w1) \<Rightarrow> Inr (Transaction_begin drv t c None w1))
                 else Inr w) of
             Inl (error, w1) \<Rightarrow> (Inl error, w1)
           | Inr w1 \<Rightarrow>
               conn_query drv t q vs
                 (if showQuery then console_log (ShownQuery q vs) w1 else w1)))"

definition query_errorHandler :: "driver \<Rightarrow> ref option \<Rightarrow> js_error \<Rightarrow> world \<Rightarrow> world" where
  "query_errorHandler drv transaction error w =
     (case transaction of
        None \<Rightarrow> w
      | Some t \<Rightarrow>
          if rollbackOnError (transactions w t) then Transaction_rollback drv t None w else w)"

definition Pool_query :: "driver \<Rightarrow> string \<Rightarrow> DbQueryOptions option \<Rightarrow> world \<Rightarrow> DbResult \<times> world" where
  "Pool_query drv q options w =
     (let vs = nullish (Option.bind options o_values) [];
          showError = nullish (Option.bind options o_showError) True;
          showQuery = nullish (Option.bind options o_showQuery) False;
          transaction = Option.bind options o_transaction
      in queryHandler q vs showError
           (query_tryHandler drv q vs showQuery transaction)
           (Some (query_errorHandler drv transaction)) w)"

definition Pool_transaction ::
  "driver \<Rightarrow> TransactionOptions option \<Rightarrow> world \<Rightarrow> (js_error + ref) \<times> world" where
  "Pool_transaction drv options w =
     (let (transaction, w1) = new_Transaction options w
      in case pool_connect drv w1 of
           (Inl error, w2) \<Rightarrow> (Inl error, w2)
         | (Inr c, w2) \<Rightarrow> (Inr transaction, Transaction_begin drv transaction c None w2))"

text \<open>
  \<open>isSuccess\<close> reads its argument as an untyped object and counts which of four properties
  are not \<open>undefined\<close>. A property value is \<open>None\<close> when the property holds \<open>undefined\<close>;
  reading a property the object does not have gives \<open>undefined\<close> too.
\<close>

type_synonym 'a any_object = "'a option jsobject"

definition get_property :: "'a any_object \<Rightarrow> string \<Rightarrow> 'a option" where
  "get_property obj key = (case map_of obj key of None \<Rightarrow> None | Some v \<Rightarrow> v)"

fun isSuccess_loop :: "string list \<Rightarrow> 'a any_object \<Rightarrow> nat \<Rightarrow> nat" where
  "isSuccess_loop [] failed count = count"
| "isSuccess_loop (key # keys) failed count =
     isSuccess_loop keys failed (if get_property failed key \<noteq> None then count + 1 else count)"

definition failure_keys :: "string list" where
  "failure_keys = [''code'', ''query'', ''values'', ''message'']"

definition isSuccess :: "'a any_object \<Rightarrow> bool" where
  "isSuccess response = (isSuccess_loop failure_keys response 0 < 2)"

text \<open>
  The two shapes of a \<open>DbResult\<close> as objects: the driver's result (it has further properties,
  \<open>command\<close>, \<open>oid\<close> and \<open>fields\<close>, none of them one of the four keys) and the literal that
  \<open>queryHandler\<close> builds.
\<close>

datatype property_value =
    RowsField "row list"
  | CountField nat
  | StringField string
  | MessageField message
  | ValuesField "jsval list"

definition as_object :: "DbResult \<Rightarrow> property_value any_object" where
  "as_object response =
     (case response of
        DbSuccess r \<Rightarrow> [(''rows'', Some (RowsField (rows r))), (''rowCount'', Some (CountField (rowCount r)))]
      | DbFailed f \<Rightarrow>
          [(''code'', Some (StringField (code f))),
           (''message'', Some (MessageField (message f))),
           (''query'', Some (StringField (query f))),
           (''values'', Some (ValuesField (bound_values f)))])"


text \<open>The statements that a stretch of the history sent to the driver, in order.\<close>

fun executed_statements :: "event list \<Rightarrow> string list" where
  "executed_statements [] = []"
| "executed_statements (Executed tgt q vs r # events) = q # executed_statements events"
| "executed_statements (e # events) = executed_statements events"

definition new_events :: "world \<Rightarrow> world \<Rightarrow> event list" where
  "new_events w w' = drop (length (trace w)) (trace w')"


text \<open>The object literal that \<open>queryHandler\<close> returns for a thrown error.\<close>

definition failure :: "string \<Rightarrow> jsval list \<Rightarrow> js_error \<Rightarrow> DbErrorResult" where
  "failure q vs error =
     \<lparr>code = nullish (err_code error) ''ER_INTERNAL_ERROR'',
      message = (case err_sqlMessage error of None \<Rightarrow> Thrown error | Some m \<Rightarrow> Text m),
      query = q, bound_values = vs\<rparr>"

text \<open>
  The events that one statement of the transaction lifecycle leaves on connection \<open>c\<close>: the
  statement with the driver's answer, and the logged failure when it was rejected.
\<close>

definition statement_events ::
  "driver \<Rightarrow> connection \<Rightarrow> string \<Rightarrow> bool \<Rightarrow> world \<Rightarrow> event list" where
  "statement_events drv c q showError w =
     Executed (Client c) q [] (execute drv (trace w) (Client c) q []) #
     (case execute drv (trace w) (Client c) q [] of
        Inr result \<Rightarrow> []
      | Inl error \<Rightarrow> if showError then [Logged (QueryError (failure q [] error))] else [])"

text \<open>The driver call of \<open>Pool.query\<close> with the defaults of its options filled in.\<close>

definition query_attempt ::
  "driver \<Rightarrow> string \<Rightarrow> DbQueryOptions option \<Rightarrow> world \<Rightarrow> (js_error + QueryResult) \<times> world" where
  "query_attempt drv q options w =
     query_tryHandler drv q (nullish (Option.bind options o_values) [])
       (nullish (Option.bind options o_showQuery) False) (Option.bind options o_transaction) w"

text \<open>A small environment for concrete runs.\<close>

definition empty_result :: QueryResult where
  "empty_result = \<lparr>rows = [], rowCount = 0\<rparr>"

definition syntax_error :: js_error where
  "syntax_error =
     \<lparr>err_name = ''error'', err_message = ''syntax error at end of input'',
      err_code = Some ''42601'', err_sqlMessage = None\<rparr>"

definition accepting_driver :: driver where
  "accepting_driver =
     \<lparr>connect = (\<lambda>history. Inr (length history)),
      execute = (\<lambda>history tgt q vs. Inr empty_result)\<rparr>"

definition rejecting_driver :: "string \<Rightarrow> driver" where
  "rejecting_driver bad =
     \<lparr>connect = (\<lambda>history. Inr (length history)),
      execute = (\<lambda>history tgt q vs. if q = bad then Inl syntax_error else Inr empty_result)\<rparr>"

definition initial_world :: world where
  "initial_world =
     \<lparr>trace = [], transactions = (\<lambda>r. \<lparr>conn = None, rollbackOnError = False\<rparr>),
      transaction_count = 0, objects = (\<lambda>r. []), object_count = 0\<rparr>"

definition bound_world :: "connection \<Rightarrow> bool \<Rightarrow> world" where
  "bound_world c flag =
     initial_world\<lparr>transactions := (\<lambda>r. \<lparr>conn = Some c, rollbackOnError = flag\<rparr>),
                    transaction_count := 1\<rparr>"

section \<open>Properties of the pool and of transactions\<close>

lemma nullish_simps [simp]: "nullish None b = b" "nullish (Some a) b = a"
  by (simp_all add: nullish_def)

lemma isSuccess_loop_eq:
  "isSuccess_loop keys failed count =
     count + length (filter (\<lambda>key. get_property failed key \<noteq> None) keys)"
  by (induction keys arbitrary: count) simp_all

lemma isSuccess_iff_card:
  "isSuccess response \<longleftrightarrow>
     card {key \<in> set failure_keys. get_property response key \<noteq> None} < 2"
proof -
  have "distinct failure_keys" by (simp add: failure_keys_def)
  then have "card {key \<in> set failure_keys. get_property response key \<noteq> None} =
      length (filter (\<lambda>key. get_property response key \<noteq> None) failure_keys)"
    using distinct_card [of "filter (\<lambda>key. get_property response key \<noteq> None) failure_keys"]
    by simp
  then show ?thesis by (simp add: isSuccess_def isSuccess_loop_eq)
qed

lemma isSuccess_as_object [simp]:
  "isSuccess (as_object (DbSuccess r))" "\<not> isSuccess (as_object (DbFailed f))"
  by (simp_all add: isSuccess_def as_object_def failure_keys_def get_property_def)

lemma console_log_simps [simp]:
  "trace (console_log l w) = trace w @ [Logged l]"
  "transactions (console_log l w) = transactions w"
  "objects (console_log l w) = objects w"
  "transaction_count (console_log l w) = transaction_count w"
  "object_count (console_log l w) = object_count w"
  by (simp_all add: console_log_def)

lemma release_simps [simp]:
  "trace (release c w) = trace w @ [Released c]"
  "transactions (release c w) = transactions w"
  "objects (release c w) = objects w"
  "transaction_count (release c w) = transaction_count w"
  "object_count (release c w) = object_count w"
  by (simp_all add: release_def)

lemma set_conn_simps [simp]:
  "trace (set_conn this c w) = trace w"
  "transactions (set_conn this c w) = (transactions w)(this := (transactions w this)\<lparr>conn := c\<rparr>)"
  "objects (set_conn this c w) = objects w"
  "transaction_count (set_conn this c w) = transaction_count w"
  "object_count (set_conn this c w) = object_count w"
  by (simp_all add: set_conn_def)

lemma driver_query_simps [simp]:
  "fst (driver_query drv tgt q vs w) = execute drv (trace w) tgt q vs"
  "trace (snd (driver_query drv tgt q vs w)) =
     trace w @ [Executed tgt q vs (execute drv (trace w) tgt q vs)]"
  "transactions (snd (driver_query drv tgt q vs w)) = transactions w"
  "objects (snd (driver_query drv tgt q vs w)) = objects w"
  "transaction_count (snd (driver_query drv tgt q vs w)) = transaction_count w"
  "object_count (snd (driver_query drv tgt q vs w)) = object_count w"
  by (simp_all add: driver_query_def Let_def)

lemma conn_query_simps [simp]:
  "transactions (snd (conn_query drv this q vs w)) = transactions w"
  "objects (snd (conn_query drv this q vs w)) = objects w"
  "transaction_count (snd (conn_query drv this q vs w)) = transaction_count w"
  "object_count (snd (conn_query drv this q vs w)) = object_count w"
  by (simp_all add: conn_query_def split: option.splits)

lemma pool_connect_simps [simp]:
  "transactions (snd (pool_connect drv w)) = transactions w"
  "objects (snd (pool_connect drv w)) = objects w"
  "transaction_count (snd (pool_connect drv w)) = transaction_count w"
  "object_count (snd (pool_connect drv w)) = object_count w"
  by (simp_all add: pool_connect_def split: sum.splits)

lemma pool_connect_cases:
  "pool_connect drv w = (r, w1) \<Longrightarrow>
   transactions w1 = transactions w \<and> objects w1 = objects w \<and>
   transaction_count w1 = transaction_count w \<and> object_count w1 = object_count w"
  using pool_connect_simps [of drv w] by simp

lemma executed_statements_append [simp]:
  "executed_statements (es @ es') = executed_statements es @ executed_statements es'"
  by (induction es rule: executed_statements.induct) simp_all

lemma executed_statement_events [simp]:
  "executed_statements (statement_events drv c q se w) = [q]"
  by (simp add: statement_events_def split: sum.splits)

lemma queryHandler_cases:
  "queryHandler q vs showError tryHandler errorHandler w =
     (case fst (tryHandler w) of
        Inr result \<Rightarrow> (DbSuccess result, snd (tryHandler w))
      | Inl error \<Rightarrow>
          (DbFailed (failure q vs error),
           (if showError then console_log (QueryError (failure q vs error)) else id)
             (nullish errorHandler (\<lambda>error w. w) error (snd (tryHandler w)))))"
  by (simp add: queryHandler_def failure_def Let_def split: prod.splits sum.splits)

lemma lifecycle_statement:
  assumes "conn (transactions w this) = Some c"
  shows "trace (snd (queryHandler q [] se (conn_query drv this q []) None w)) =
           trace w @ statement_events drv c q se w"
    and "transactions (snd (queryHandler q [] se (conn_query drv this q []) None w)) =
           transactions w"
    and "objects (snd (queryHandler q [] se (conn_query drv this q []) None w)) = objects w"
  using assms
  by (simp_all add: queryHandler_cases conn_query_def statement_events_def split: sum.splits)

lemma begin_unbound:
  assumes "conn (transactions w this) = None"
  shows "trace (Transaction_begin drv this c showError w) =
           trace w @ statement_events drv c ''COMMIT;'' (nullish showError True) w"
    and "transactions (Transaction_begin drv this c showError w) =
           (transactions w)(this := (transactions w this)\<lparr>conn := Some c\<rparr>)"
    and "objects (Transaction_begin drv this c showError w) = objects w"
proof -
  let ?w1 = "set_conn this (Some c) w"
  have c1: "conn (transactions ?w1 this) = Some c" by simp
  show "trace (Transaction_begin drv this c showError w) =
           trace w @ statement_events drv c ''COMMIT;'' (nullish showError True) w"
    using assms lifecycle_statement(1) [OF c1, of "''COMMIT;''" "nullish showError True" drv]
    by (simp add: Transaction_begin_def Let_def statement_events_def)
  show "transactions (Transaction_begin drv this c showError w) =
           (transactions w)(this := (transactions w this)\<lparr>conn := Some c\<rparr>)"
    using assms lifecycle_statement(2) [OF c1, of "''COMMIT;''" "nullish showError True" drv]
    by (simp add: Transaction_begin_def Let_def)
  show "objects (Transaction_begin drv this c showError w) = objects w"
    using assms lifecycle_statement(3) [OF c1, of "''COMMIT;''" "nullish showError True" drv]
    by (simp add: Transaction_begin_def Let_def)
qed

lemma begin_bound:
  "conn (transactions w this) = Some c0 \<Longrightarrow>
   Transaction_begin drv this c showError w =
     console_log (Line ''Failed to begin transaction. Connection already established'') w"
  by (simp add: Transaction_begin_def Let_def)

lemma end_bound:
  assumes "conn (transactions w this) = Some c"
  shows "trace (Transaction_end this w) = trace w @ [Released c]"
    and "transactions (Transaction_end this w) =
           (transactions w)(this := (transactions w this)\<lparr>conn := None\<rparr>)"
    and "objects (Transaction_end this w) = objects w"
  using assms by (simp_all add: Transaction_end_def)

lemma finish_bound:
  assumes "conn (transactions w this) = Some c"
  shows "trace (Transaction_end this
            (snd (queryHandler q [] se (conn_query drv this q []) None w))) =
           trace w @ statement_events drv c q se w @ [Released c]"
    and "transactions (Transaction_end this
            (snd (queryHandler q [] se (conn_query drv this q []) None w))) =
           (transactions w)(this := (transactions w this)\<lparr>conn := None\<rparr>)"
    and "objects (Transaction_end this
            (snd (queryHandler q [] se (conn_query drv this q []) None w))) = objects w"
proof -
  let ?w1 = "snd (queryHandler q [] se (conn_query drv this q []) None w)"
  have c1: "conn (transactions ?w1 this) = Some c"
    using assms by (simp add: lifecycle_statement(2) [OF assms])
  show "trace (Transaction_end this ?w1) = trace w @ statement_events drv c q se w @ [Released c]"
    by (simp add: end_bound(1) [OF c1] lifecycle_statement(1) [OF assms])
  show "transactions (Transaction_end this ?w1) =
           (transactions w)(this := (transactions w this)\<lparr>conn := None\<rparr>)"
    by (simp add: end_bound(2) [OF c1] lifecycle_statement(2) [OF assms])
  show "objects (Transaction_end this ?w1) = objects w"
    by (simp add: end_bound(3) [OF c1] lifecycle_statement(3) [OF assms])
qed

lemma commit_bound:
  assumes "conn (transactions w this) = Some c"
  shows "trace (Transaction_commit drv this showError w) =
           trace w @ statement_events drv c ''COMMIT;'' (nullish showError True) w @ [Released c]"
    and "transactions (Transaction_commit drv this showError w) =
           (transactions w)(this := (transactions w this)\<lparr>conn := None\<rparr>)"
    and "objects (Transaction_commit drv this showError w) = objects w"
  using assms finish_bound [OF assms, of "''COMMIT;''" "nullish showError True" drv]
  by (simp_all add: Transaction_commit_def Let_def)

lemma rollback_bound:
  assumes "conn (transactions w this) = Some c"
  shows "trace (Transaction_rollback drv this showError w) =
           trace w @ statement_events drv c ''ROLLBACK'' (nullish showError True) w @ [Released c]"
    and "transactions (Transaction_rollback drv this showError w) =
           (transactions w)(this := (transactions w this)\<lparr>conn := None\<rparr>)"
    and "objects (Transaction_rollback drv this showError w) = objects w"
  using assms finish_bound [OF assms, of "''ROLLBACK''" "nullish showError True" drv]
  by (simp_all add: Transaction_rollback_def Let_def)

lemma commit_unbound:
  "conn (transactions w this) = None \<Longrightarrow>
   Transaction_commit drv this showError w =
     console_log (Line ''Failed to commit transaction. Connection is not established'') w"
  by (simp add: Transaction_commit_def Let_def)

lemma rollback_unbound:
  "conn (transactions w this) = None \<Longrightarrow>
   Transaction_rollback drv this showError w =
     console_log (Line ''Failed to commit transaction. Connection is not established'') w"
  by (simp add: Transaction_rollback_def Let_def)

lemma query_tryHandler_flag:
  "rollbackOnError (transactions (snd (query_tryHandler drv q vs showQuery (Some t) w)) t) =
     rollbackOnError (transactions w t)"
proof (cases "conn (transactions w t)")
  case (Some c)
  then show ?thesis by (simp add: query_tryHandler_def)
next
  case None
  obtain r w1 where pc: "pool_connect drv w = (r, w1)" by (cases "pool_connect drv w")
  then have same: "transactions w1 = transactions w" by (simp add: pool_connect_cases)
  show ?thesis
  proof (cases r)
    case (Inl error)
    with None pc same show ?thesis by (simp add: query_tryHandler_def)
  next
    case (Inr c)
    have "conn (transactions w1 t) = None" using None same by simp
    then have "transactions (Transaction_begin drv t c None w1) =
        (transactions w1)(t := (transactions w1 t)\<lparr>conn := Some c\<rparr>)"
      by (rule begin_unbound(2))
    with None pc same Inr show ?thesis by (simp add: query_tryHandler_def)
  qed
qed

lemma Pool_query_cases:
  "Pool_query drv q options w =
     (case fst (query_attempt drv q options w) of
        Inr result \<Rightarrow> (DbSuccess result, snd (query_attempt drv q options w))
      | Inl error \<Rightarrow>
          (DbFailed (failure q (nullish (Option.bind options o_values) []) error),
           (if nullish (Option.bind options o_showError) True
            then console_log
                   (QueryError (failure q (nullish (Option.bind options o_values) []) error))
            else id)
             (query_errorHandler drv (Option.bind options o_transaction) error
                (snd (query_attempt drv q options w)))))"
  by (simp add: Pool_query_def queryHandler_cases query_attempt_def Let_def split: sum.splits)


lemma new_events_append: "trace w' = trace w @ es \<Longrightarrow> new_events w w' = es"
  by (simp add: new_events_def)

text \<open>
  Claim C4. \<open>isSuccess\<close> answers \<open>true\<close> exactly when fewer than two of the properties
  \<open>code\<close>, \<open>query\<close>, \<open>values\<close> and \<open>message\<close> of its argument are defined, so a result is
  taken for a failure exactly when at least two of them are. The driver's result has none of
  the four and the failure that \<open>queryHandler\<close> builds has all of them.
\<close>

theorem isSuccess_two_of_four:
  "(isSuccess response \<longleftrightarrow>
      card {key \<in> set [''code'', ''query'', ''values'', ''message''].
            get_property response key \<noteq> None} < 2) \<and>
   (\<not> isSuccess response \<longleftrightarrow>
      2 \<le> card {key \<in> set [''code'', ''query'', ''values'', ''message''].
            get_property response key \<noteq> None}) \<and>
   isSuccess (as_object (DbSuccess r)) \<and>
   \<not> isSuccess (as_object (DbFailed f))"
  using isSuccess_iff_card [of response] by (simp add: failure_keys_def not_less)

theorem isSuccess_two_of_four_witness:
  "isSuccess [(''code'', Some (Str ''23505'')), (''message'', None), (''rows'', Some Null)] \<and>
   \<not> isSuccess [(''code'', Some (Str ''23505'')), (''rows'', Some Null), (''values'', Some Null)]"
  using isSuccess_two_of_four
      [of "[(''code'', Some (Str ''23505'')), (''message'', None), (''rows'', Some Null)]"]
    isSuccess_two_of_four
      [of "[(''code'', Some (Str ''23505'')), (''rows'', Some Null), (''values'', Some Null)]"]
  by (simp add: isSuccess_def failure_keys_def get_property_def)

text \<open>
  Claim C7. \<open>begin(connection)\<close> on a transaction without a connection stores the connection
  and then sends one statement on it, the text \<open>COMMIT;\<close> (the same text that \<open>commit\<close>
  sends); a rejection of the statement is logged and goes no further.
\<close>

theorem begin_issues_commit_statement:
  assumes "conn (transactions w this) = None"
  shows "conn (transactions (Transaction_begin drv this c showError w) this) = Some c \<and>
    trace (Transaction_begin drv this c showError w) =
      trace w @ statement_events drv c ''COMMIT;'' (nullish showError True) w \<and>
    hd (new_events w (Transaction_begin drv this c showError w)) =
      Executed (Client c) ''COMMIT;'' [] (execute drv (trace w) (Client c) ''COMMIT;'' []) \<and>
    executed_statements (new_events w (Transaction_begin drv this c showError w)) = [''COMMIT;'']"
  using begin_unbound [OF assms, of drv c showError]
  by (simp add: new_events_append) (simp add: statement_events_def)

theorem begin_issues_commit_statement_witness:
  "conn (transactions initial_world 0) = None \<and>
   conn (transactions (Transaction_begin accepting_driver 0 5 None initial_world) 0) = Some 5 \<and>
   trace (Transaction_begin accepting_driver 0 5 None initial_world) =
     [Executed (Client 5) ''COMMIT;'' [] (Inr empty_result)]"
proof -
  have h: "conn (transactions initial_world 0) = None"
    by (simp add: initial_world_def)
  show ?thesis
    using h begin_issues_commit_statement [OF h, of accepting_driver 5 None]
    by (simp add: statement_events_def accepting_driver_def initial_world_def)
qed

text \<open>
  Claim C2. On a transaction that holds connection \<open>c0\<close>, \<open>begin\<close> with another connection
  only logs a line and the transaction keeps \<open>c0\<close>; \<open>commit\<close> and \<open>rollback\<close> send their
  statement on \<open>c0\<close>, release \<open>c0\<close> to the pool as their last event, whatever the driver
  answered, and leave the connection reference \<open>null\<close>.
\<close>

theorem transaction_holds_one_connection:
  assumes "conn (transactions w this) = Some c0"
  shows "Transaction_begin drv this c showError w =
      console_log (Line ''Failed to begin transaction. Connection already established'') w \<and>
    conn (transactions (Transaction_begin drv this c showError w) this) = Some c0 \<and>
    conn (transactions (Transaction_commit drv this showError w) this) = None \<and>
    trace (Transaction_commit drv this showError w) =
      trace w @ statement_events drv c0 ''COMMIT;'' (nullish showError True) w @ [Released c0] \<and>
    conn (transactions (Transaction_rollback drv this showError w) this) = None \<and>
    trace (Transaction_rollback drv this showError w) =
      trace w @ statement_events drv c0 ''ROLLBACK'' (nullish showError True) w @ [Released c0]"
  using assms begin_bound [OF assms, of drv c showError]
    commit_bound [OF assms, of drv showError] rollback_bound [OF assms, of drv showError]
  by simp

theorem transaction_holds_one_connection_witness:
  "conn (transactions (bound_world 7 False) 0) = Some 7 \<and>
   conn (transactions (Transaction_begin accepting_driver 0 8 None (bound_world 7 False)) 0) = Some 7 \<and>
   trace (Transaction_begin accepting_driver 0 8 None (bound_world 7 False)) =
     [Logged (Line ''Failed to begin transaction. Connection already established'')] \<and>
   conn (transactions (Transaction_commit accepting_driver 0 None (bound_world 7 False)) 0) = None \<and>
   trace (Transaction_commit accepting_driver 0 None (bound_world 7 False)) =
     [Executed (Client 7) ''COMMIT;'' [] (Inr empty_result), Released 7] \<and>
   trace (Transaction_rollback accepting_driver 0 None (bound_world 7 False)) =
     [Executed (Client 7) ''ROLLBACK'' [] (Inr empty_result), Released 7]"
proof -
  have h: "conn (transactions (bound_world 7 False) 0) = Some 7"
    by (simp add: bound_world_def)
  show ?thesis
    using h transaction_holds_one_connection [OF h, of accepting_driver 8 None]
    by (simp add: statement_events_def accepting_driver_def bound_world_def initial_world_def)
qed


lemma query_attempt_flag:
  "Option.bind options o_transaction = Some t \<Longrightarrow>
   query_attempt drv q options w = (r, w1) \<Longrightarrow>
   rollbackOnError (transactions w1 t) = rollbackOnError (transactions w t)"
  using query_tryHandler_flag [of drv q "nullish (Option.bind options o_values) []"
      "nullish (Option.bind options o_showQuery) False" t w]
  by (simp add: query_attempt_def)

text \<open>The failure logged when \<open>showError\<close> is set.\<close>

definition shown :: "bool \<Rightarrow> DbErrorResult \<Rightarrow> world \<Rightarrow> world" where
  "shown showError f w = (if showError then console_log (QueryError f) w else w)"

lemma executed_statements_drop_log [simp]:
  "executed_statements (drop k [Logged l]) = []"
  by (cases k) simp_all

lemma shown_simps [simp]:
  "trace (shown se f w) = trace w @ (if se then [Logged (QueryError f)] else [])"
  "transactions (shown se f w) = transactions w"
  "objects (shown se f w) = objects w"
  "executed_statements (new_events w0 (shown se f w)) = executed_statements (new_events w0 w)"
  by (simp_all add: shown_def new_events_def)

text \<open>
  Claim C5. Let the driver call of \<open>Pool.query\<close> reject, leaving the world \<open>w1\<close>. The call
  returns the failure built from the error. With a transaction whose \<open>rollbackOnError\<close> is
  set, the world that comes back with the failure is \<open>w1\<close> after \<open>rollback()\<close> (and the
  logged failure): the transaction holds no connection, and when it held connection \<open>c\<close> the
  one statement sent after the rejection is \<open>ROLLBACK\<close> and \<open>c\<close> was released. Without a
  transaction, or with the flag unset, nothing is sent after the rejection and no transaction
  changes.
\<close>

theorem rollback_on_error:
  assumes "query_attempt drv q options w = (Inl error, w1)"
  shows "fst (Pool_query drv q options w) =
      DbFailed (failure q (nullish (Option.bind options o_values) []) error) \<and>
    (\<forall>t. Option.bind options o_transaction = Some t \<and> rollbackOnError (transactions w t) \<longrightarrow>
       snd (Pool_query drv q options w) =
         shown (nullish (Option.bind options o_showError) True)
           (failure q (nullish (Option.bind options o_values) []) error)
           (Transaction_rollback drv t None w1) \<and>
       conn (transactions (snd (Pool_query drv q options w)) t) = None \<and>
       (\<forall>c. conn (transactions w1 t) = Some c \<longrightarrow>
          executed_statements (new_events w1 (snd (Pool_query drv q options w))) = [''ROLLBACK''] \<and>
          Released c \<in> set (new_events w1 (snd (Pool_query drv q options w))))) \<and>
    ((Option.bind options o_transaction = None \<or>
      (\<exists>t. Option.bind options o_transaction = Some t \<and> \<not> rollbackOnError (transactions w t))) \<longrightarrow>
       snd (Pool_query drv q options w) =
         shown (nullish (Option.bind options o_showError) True)
           (failure q (nullish (Option.bind options o_values) []) error) w1 \<and>
       executed_statements (new_events w1 (snd (Pool_query drv q options w))) = [] \<and>
       transactions (snd (Pool_query drv q options w)) = transactions w1)"
proof -
  let ?f = "failure q (nullish (Option.bind options o_values) []) error"
  let ?se = "nullish (Option.bind options o_showError) True"
  have result: "Pool_query drv q options w =
      (DbFailed ?f, shown ?se ?f (query_errorHandler drv (Option.bind options o_transaction) error w1))"
    using assms by (simp add: Pool_query_cases shown_def)
  have flagged: "snd (Pool_query drv q options w) = shown ?se ?f (Transaction_rollback drv t None w1) \<and>
       conn (transactions (snd (Pool_query drv q options w)) t) = None \<and>
       (\<forall>c. conn (transactions w1 t) = Some c \<longrightarrow>
          executed_statements (new_events w1 (snd (Pool_query drv q options w))) = [''ROLLBACK''] \<and>
          Released c \<in> set (new_events w1 (snd (Pool_query drv q options w))))"
    if t: "Option.bind options o_transaction = Some t" and flag: "rollbackOnError (transactions w t)"
    for t
  proof -
    have flag1: "rollbackOnError (transactions w1 t)"
      using query_attempt_flag [OF t assms] flag by simp
    have eq: "snd (Pool_query drv q options w) = shown ?se ?f (Transaction_rollback drv t None w1)"
      using result t flag1 by (simp add: query_errorHandler_def)
    have released: "conn (transactions (Transaction_rollback drv t None w1) t) = None"
    proof (cases "conn (transactions w1 t)")
      case None
      then show ?thesis by (simp add: rollback_unbound)
    next
      case (Some c)
      then show ?thesis by (simp add: rollback_bound(2))
    qed
    have events: "executed_statements (new_events w1 (snd (Pool_query drv q options w))) = [''ROLLBACK''] \<and>
          Released c \<in> set (new_events w1 (snd (Pool_query drv q options w)))"
      if c: "conn (transactions w1 t) = Some c" for c
    proof -
      have tr: "trace (Transaction_rollback drv t None w1) =
          trace w1 @ statement_events drv c ''ROLLBACK'' True w1 @ [Released c]"
        using rollback_bound(1) [OF c, of drv None] by simp
      have "new_events w1 (Transaction_rollback drv t None w1) =
          statement_events drv c ''ROLLBACK'' True w1 @ [Released c]"
        by (rule new_events_append) (rule tr)
      moreover have "new_events w1 (shown ?se ?f (Transaction_rollback drv t None w1)) =
          new_events w1 (Transaction_rollback drv t None w1) @
          (if ?se then [Logged (QueryError ?f)] else [])"
        by (simp add: new_events_def tr)
      ultimately show ?thesis by (simp add: eq)
    qed
    show ?thesis using eq released events by simp
  qed
  have plain: "snd (Pool_query drv q options w) = shown ?se ?f w1 \<and>
       executed_statements (new_events w1 (snd (Pool_query drv q options w))) = [] \<and>
       transactions (snd (Pool_query drv q options w)) = transactions w1"
    if "Option.bind options o_transaction = None \<or>
      (\<exists>t. Option.bind options o_transaction = Some t \<and> \<not> rollbackOnError (transactions w t))"
  proof -
    have "query_errorHandler drv (Option.bind options o_transaction) error w1 = w1"
      using that query_attempt_flag [OF _ assms]
      by (auto simp add: query_errorHandler_def)
    then have "snd (Pool_query drv q options w) = shown ?se ?f w1"
      using result by simp
    then show ?thesis by (simp add: new_events_def)
  qed
  have first: "fst (Pool_query drv q options w) = DbFailed ?f"
    using result by simp
  show ?thesis using first flagged plain by blast
qed


lemmas pool_eval =
  Pool_query_def queryHandler_def query_tryHandler_def query_errorHandler_def query_attempt_def
  Transaction_begin_def Transaction_commit_def Transaction_rollback_def Transaction_end_def
  conn_query_def driver_query_def pool_connect_def release_def set_conn_def console_log_def
  new_Transaction_def Pool_transaction_def failure_def shown_def new_events_def
  accepting_driver_def rejecting_driver_def initial_world_def bound_world_def syntax_error_def
  empty_result_def Let_def

text \<open>Options that only name a transaction.\<close>

definition through :: "ref \<Rightarrow> DbQueryOptions" where
  "through t = \<lparr>o_values = None, o_showError = None, o_showQuery = None, o_transaction = Some t\<rparr>"

theorem rollback_on_error_witness:
  "query_attempt (rejecting_driver ''SELECT nope;'') ''SELECT nope;'' (Some (through 0))
      (bound_world 7 True) =
     (Inl syntax_error,
      (bound_world 7 True)\<lparr>trace := [Executed (Client 7) ''SELECT nope;'' [] (Inl syntax_error)]\<rparr>) \<and>
   rollbackOnError (transactions (bound_world 7 True) 0) \<and>
   conn (transactions (snd (Pool_query (rejecting_driver ''SELECT nope;'') ''SELECT nope;''
      (Some (through 0)) (bound_world 7 True))) 0) = None \<and>
   executed_statements (trace (snd (Pool_query (rejecting_driver ''SELECT nope;'')
      ''SELECT nope;'' (Some (through 0)) (bound_world 7 True)))) = [''SELECT nope;'', ''ROLLBACK''] \<and>
   query_attempt (rejecting_driver ''SELECT nope;'') ''SELECT nope;'' (Some (through 0))
      (bound_world 7 False) =
     (Inl syntax_error,
      (bound_world 7 False)\<lparr>trace := [Executed (Client 7) ''SELECT nope;'' [] (Inl syntax_error)]\<rparr>) \<and>
   \<not> rollbackOnError (transactions (bound_world 7 False) 0) \<and>
   conn (transactions (snd (Pool_query (rejecting_driver ''SELECT nope;'') ''SELECT nope;''
      (Some (through 0)) (bound_world 7 False))) 0) = Some 7 \<and>
   executed_statements (trace (snd (Pool_query (rejecting_driver ''SELECT nope;'')
      ''SELECT nope;'' (Some (through 0)) (bound_world 7 False)))) = [''SELECT nope;''] \<and>
   executed_statements (trace (snd (Pool_query (rejecting_driver ''SELECT nope;'')
      ''SELECT nope;'' None (bound_world 7 True)))) = [''SELECT nope;'']"
proof -
  let ?D = "rejecting_driver ''SELECT nope;''" and ?q = "''SELECT nope;''"
  have a1: "query_attempt ?D ?q (Some (through 0)) (bound_world 7 True) =
     (Inl syntax_error,
      (bound_world 7 True)\<lparr>trace := [Executed (Client 7) ?q [] (Inl syntax_error)]\<rparr>)"
    by (simp add: pool_eval through_def)
  have a2: "query_attempt ?D ?q (Some (through 0)) (bound_world 7 False) =
     (Inl syntax_error,
      (bound_world 7 False)\<lparr>trace := [Executed (Client 7) ?q [] (Inl syntax_error)]\<rparr>)"
    by (simp add: pool_eval through_def)
  have a3: "query_attempt ?D ?q None (bound_world 7 True) =
     (Inl syntax_error,
      (bound_world 7 True)\<lparr>trace := [Executed ThePool ?q [] (Inl syntax_error)]\<rparr>)"
    by (simp add: pool_eval)
  show ?thesis
    using a1 a2 rollback_on_error [OF a1] rollback_on_error [OF a2] rollback_on_error [OF a3]
    by (simp add: pool_eval through_def)
qed


section \<open>Script\<close>

datatype QueryType = Create | Drop | Drop_constraint | Schema | Alter

text \<open>
  The \<open>folder\<close> is an object with one property per query type, created in the order
  \<open>create, drop, drop_constraint, schema, alter\<close>; each holds an object from schema names to
  arrays of statements.
\<close>

definition folder_keys :: "QueryType list" where
  "folder_keys = [Create, Drop, Drop_constraint, Schema, Alter]"

record Script =
  folder :: "QueryType \<Rightarrow> string list jsobject"
  script_schema :: string

definition new_Script :: Script where
  "new_Script = \<lparr>folder = (\<lambda>type. []), script_schema = []\<rparr>"

text \<open>
  Reading \<open>obj[key]\<close> finds an own property, or else a property of \<open>Object.prototype\<close>, or
  else \<open>undefined\<close>.
\<close>

definition object_prototype_keys :: "string list" where
  "object_prototype_keys =
     [''constructor'', ''__defineGetter__'', ''__defineSetter__'', ''hasOwnProperty'',
      ''__lookupGetter__'', ''__lookupSetter__'', ''isPrototypeOf'', ''propertyIsEnumerable'',
      ''toString'', ''valueOf'', ''__proto__'', ''toLocaleString'']"

datatype 'a member = Own 'a | Inherited | Missing

definition get_member :: "'a jsobject \<Rightarrow> string \<Rightarrow> 'a member" where
  "get_member obj key =
     (case map_of obj key of
        Some v \<Rightarrow> Own v
      | None \<Rightarrow> if key \<in> set object_prototype_keys then Inherited else Missing)"

text \<open>\<open>obj[key].push(item)\<close>: only an own array can be pushed to.\<close>

definition array_push ::
  "string list jsobject \<Rightarrow> string \<Rightarrow> string \<Rightarrow> js_error + string list jsobject" where
  "array_push obj key item =
     (case get_member obj key of
        Own items \<Rightarrow> Inr (set_property obj key (items @ [item]))
      | Inherited \<Rightarrow> Inl (TypeError ''push is not a function'')
      | Missing \<Rightarrow> Inl (TypeError ''Cannot read properties of undefined (reading 'push')''))"

definition addSchema :: "Script \<Rightarrow> string \<Rightarrow> js_error + Script" where
  "addSchema sc schemaName =
     (let cleared = fold (\<lambda>type f. f(type := set_property (f type) schemaName []))
                      folder_keys (folder sc)
      in case array_push (cleared Schema) schemaName
                (''DROP SCHEMA IF EXISTS '' @ schemaName @ '';'') of
           Inl error \<Rightarrow> Inl error
         | Inr dropped \<Rightarrow>
             (case array_push dropped schemaName
                     (''CREATE SCHEMA IF NOT EXISTS '' @ schemaName @ '';'') of
                Inl error \<Rightarrow> Inl error
              | Inr created \<Rightarrow> Inr (sc\<lparr>folder := cleared(Schema := created)\<rparr>)))"

definition hasSchema :: "Script \<Rightarrow> string \<Rightarrow> bool" where
  "hasSchema sc schemaName =
     list_all (\<lambda>type. get_member (folder sc type) schemaName \<noteq> Missing) folder_keys"

definition setSchema :: "Script \<Rightarrow> string \<Rightarrow> js_error + Script" where
  "setSchema sc schemaName =
     (case (if \<not> hasSchema sc schemaName then addSchema sc schemaName else Inr sc) of
        Inl error \<Rightarrow> Inl error
      | Inr sc1 \<Rightarrow> Inr (sc1\<lparr>script_schema := schemaName\<rparr>))"

definition push :: "Script \<Rightarrow> QueryType \<Rightarrow> string \<Rightarrow> js_error + Script" where
  "push sc type q =
     (case array_push (folder sc type) (script_schema sc) q of
        Inl error \<Rightarrow> Inl error
      | Inr obj \<Rightarrow> Inr (sc\<lparr>folder := (folder sc)(type := obj)\<rparr>))"

definition getFolder :: "Script \<Rightarrow> QueryType \<Rightarrow> string list jsobject" where
  "getFolder sc = folder sc"

text \<open>
  A script is built by calls of its two public mutators; a call that throws ends the run.
  \<open>registered type name\<close> are the statements pushed to \<open>type\<close> while \<open>name\<close> was the current
  schema, in the order of the calls, and \<open>seeded\<close> what \<open>addSchema\<close> puts into a new bucket.
\<close>

datatype registration = SetSchema string | Push QueryType string

fun register :: "Script \<Rightarrow> registration list \<Rightarrow> js_error + Script" where
  "register sc [] = Inr sc"
| "register sc (SetSchema schemaName # calls) =
     (case setSchema sc schemaName of Inl error \<Rightarrow> Inl error | Inr sc1 \<Rightarrow> register sc1 calls)"
| "register sc (Push type q # calls) =
     (case push sc type q of Inl error \<Rightarrow> Inl error | Inr sc1 \<Rightarrow> register sc1 calls)"

fun registered :: "QueryType \<Rightarrow> string \<Rightarrow> string \<Rightarrow> registration list \<Rightarrow> string list" where
  "registered type name current [] = []"
| "registered type name current (SetSchema schemaName # calls) =
     registered type name schemaName calls"
| "registered type name current (Push type' q # calls) =
     (if type' = type \<and> current = name then [q] else []) @ registered type name current calls"

definition seeded :: "QueryType \<Rightarrow> string \<Rightarrow> string list" where
  "seeded type name =
     (if type = Schema
      then [''DROP SCHEMA IF EXISTS '' @ name @ '';'', ''CREATE SCHEMA IF NOT EXISTS '' @ name @ '';'']
      else [])"


section \<open>Properties of the script\<close>

lemma map_of_set_property:
  "map_of (set_property obj k v) = (map_of obj)(k \<mapsto> v)"
  by (induction obj) (auto simp: fun_eq_iff)

lemma keys_set_property_present:
  "k \<in> fst ` set obj \<Longrightarrow> map fst (set_property obj k v) = map fst obj"
  by (induction obj) force+

lemma keys_set_property_absent:
  "k \<notin> fst ` set obj \<Longrightarrow> map fst (set_property obj k v) = map fst obj @ [k]"
  by (induction obj) auto

lemma keys_set_property:
  "map fst (set_property obj k v) =
     (if k \<in> fst ` set obj then map fst obj else map fst obj @ [k])"
  using keys_set_property_present keys_set_property_absent by metis

lemma key_set_set_property:
  "fst ` set (set_property obj k v) = insert k (fst ` set obj)"
proof -
  have "set (map fst (set_property obj k v)) = insert k (set (map fst obj))"
    unfolding keys_set_property by auto
  then show ?thesis by simp
qed

lemma distinct_set_property:
  "distinct (map fst obj) \<Longrightarrow> distinct (map fst (set_property obj k v))"
  unfolding keys_set_property by auto

lemma set_property_twice [simp]:
  "set_property (set_property obj k a) k b = set_property obj k b"
  by (induction obj) auto

text \<open>
  What every script that the mutators build satisfies: each object of the folder has its keys
  once, and all five have the same keys.
\<close>

definition wf_script :: "Script \<Rightarrow> bool" where
  "wf_script sc \<longleftrightarrow>
     (\<forall>type. distinct (map fst (folder sc type))) \<and>
     (\<forall>type type'. set (map fst (folder sc type)) = set (map fst (folder sc type')))"

lemma cleared_eq:
  "fold (\<lambda>type f. f(type := set_property (f type) name [])) folder_keys f0 type =
     set_property (f0 type) name []"
  by (cases type) (simp_all add: folder_keys_def)

lemma get_member_Own:
  "map_of obj key = Some v \<Longrightarrow> get_member obj key = Own v"
  by (simp add: get_member_def)

lemma array_push_own:
  "map_of obj key = Some items \<Longrightarrow>
   array_push obj key item = Inr (set_property obj key (items @ [item]))"
  by (simp add: array_push_def get_member_Own)

lemma array_push_Inr:
  "array_push obj key item = Inr obj' \<Longrightarrow>
   \<exists>items. map_of obj key = Some items \<and> obj' = set_property obj key (items @ [item])"
  by (auto simp: array_push_def get_member_def split: option.splits if_splits)

lemma addSchema_eq:
  "addSchema sc name =
     Inr (sc\<lparr>folder := (\<lambda>type. set_property (folder sc type) name (seeded type name))\<rparr>)"
proof -
  let ?cleared = "fold (\<lambda>type f. f(type := set_property (f type) name [])) folder_keys (folder sc)"
  have c: "?cleared type = set_property (folder sc type) name []" for type
    by (rule cleared_eq)
  have p1: "array_push (?cleared Schema) name (''DROP SCHEMA IF EXISTS '' @ name @ '';'') =
      Inr (set_property (folder sc Schema) name [''DROP SCHEMA IF EXISTS '' @ name @ '';''])"
    by (simp add: c array_push_own [of _ _ "[]"] map_of_set_property)
  have p2: "array_push (set_property (folder sc Schema) name [''DROP SCHEMA IF EXISTS '' @ name @ '';''])
        name (''CREATE SCHEMA IF NOT EXISTS '' @ name @ '';'') =
      Inr (set_property (folder sc Schema) name (seeded Schema name))"
    by (simp add: array_push_own [of _ _ "[''DROP SCHEMA IF EXISTS '' @ name @ '';'']"]
        map_of_set_property seeded_def)
  have f: "?cleared(Schema := set_property (folder sc Schema) name (seeded Schema name)) =
      (\<lambda>type. set_property (folder sc type) name (seeded type name))"
    by (auto simp: fun_eq_iff c seeded_def)
  show ?thesis
    by (simp only: addSchema_def Let_def p1 sum.case p2 f)
qed

lemma hasSchema_iff:
  "hasSchema sc name \<longleftrightarrow> (\<forall>type. get_member (folder sc type) name \<noteq> Missing)"
proof
  assume h: "hasSchema sc name"
  show "\<forall>type. get_member (folder sc type) name \<noteq> Missing"
  proof
    fix type show "get_member (folder sc type) name \<noteq> Missing"
      using h by (cases type) (simp_all add: hasSchema_def folder_keys_def)
  qed
next
  assume "\<forall>type. get_member (folder sc type) name \<noteq> Missing"
  then show "hasSchema sc name" by (simp add: hasSchema_def folder_keys_def)
qed

lemma not_hasSchema_fresh:
  assumes "wf_script sc" "\<not> hasSchema sc name"
  shows "map_of (folder sc type) name = None"
proof -
  from assms(2) obtain type' where "get_member (folder sc type') name = Missing"
    by (auto simp: hasSchema_iff)
  then have "map_of (folder sc type') name = None"
    by (auto simp: get_member_def split: option.splits)
  then have "name \<notin> set (map fst (folder sc type'))"
    by (simp add: map_of_eq_None_iff)
  then have "name \<notin> set (map fst (folder sc type))"
    using assms(1) unfolding wf_script_def by blast
  then show ?thesis by (simp add: map_of_eq_None_iff)
qed

lemma wf_set_property_all:
  assumes "wf_script sc"
  shows "wf_script (sc\<lparr>folder := (\<lambda>type. set_property (folder sc type) name (vs type))\<rparr>)"
proof -
  have d: "distinct (map fst (folder sc type))" for type
    using assms unfolding wf_script_def by blast
  have e: "fst ` set (folder sc type) = fst ` set (folder sc type')" for type type'
    using assms unfolding wf_script_def by simp
  have "insert name (fst ` set (folder sc type)) = insert name (fst ` set (folder sc type'))"
    for type type'
    using e [of type type'] by simp
  then show ?thesis
    unfolding wf_script_def using d by (simp add: key_set_set_property distinct_set_property)
qed

lemma wf_set_property_present:
  assumes "wf_script sc" "map_of (folder sc type) name = Some old"
  shows "wf_script (sc\<lparr>folder := (folder sc)(type := set_property (folder sc type) name v)\<rparr>)"
proof -
  have "name \<in> fst ` set (folder sc type)"
    using assms(2) by (metis map_of_eq_None_iff option.distinct(1))
  then have "fst ` set (set_property (folder sc type) name v) = fst ` set (folder sc type)"
    by (auto simp: key_set_set_property)
  then show ?thesis
    using assms(1) unfolding wf_script_def by (auto simp: distinct_set_property)
qed


lemma setSchema_cases:
  "setSchema sc name =
     Inr (if hasSchema sc name then sc\<lparr>script_schema := name\<rparr>
          else sc\<lparr>folder := (\<lambda>type. set_property (folder sc type) name (seeded type name)),
                  script_schema := name\<rparr>)"
  by (simp add: setSchema_def addSchema_eq)

lemma push_Inr:
  assumes "push sc type q = Inr sc1"
  shows "\<exists>items. map_of (folder sc type) (script_schema sc) = Some items \<and>
     sc1 = sc\<lparr>folder := (folder sc)
             (type := set_property (folder sc type) (script_schema sc) (items @ [q]))\<rparr>"
proof (cases "array_push (folder sc type) (script_schema sc) q")
  case (Inl error)
  with assms show ?thesis by (simp add: push_def)
next
  case (Inr obj)
  from array_push_Inr [OF Inr] obtain items where
    "map_of (folder sc type) (script_schema sc) = Some items"
    "obj = set_property (folder sc type) (script_schema sc) (items @ [q])" by blast
  with assms Inr show ?thesis by (auto simp: push_def)
qed

text \<open>What a bucket holds before further calls: its array, or the seed of a new one.\<close>

definition bucket_base :: "Script \<Rightarrow> QueryType \<Rightarrow> string \<Rightarrow> string list" where
  "bucket_base sc type name =
     (case map_of (folder sc type) name of Some old \<Rightarrow> old | None \<Rightarrow> seeded type name)"

lemma register_buckets:
  assumes "wf_script sc" "register sc calls = Inr sc'"
  shows "wf_script sc' \<and>
    (\<forall>type name items. map_of (folder sc' type) name = Some items \<longrightarrow>
       items = bucket_base sc type name @ registered type name (script_schema sc) calls)"
  using assms
proof (induction calls arbitrary: sc)
  case Nil
  then show ?case by (auto simp: bucket_base_def)
next
  case (Cons call calls)
  show ?case
  proof (cases call)
    case (SetSchema name)
    let ?sc1 = "if hasSchema sc name then sc\<lparr>script_schema := name\<rparr>
          else sc\<lparr>folder := (\<lambda>type. set_property (folder sc type) name (seeded type name)),
                  script_schema := name\<rparr>"
    have run: "register ?sc1 calls = Inr sc'"
      using Cons.prems(2) SetSchema by (simp add: setSchema_cases)
    have wf1: "wf_script ?sc1"
    proof (cases "hasSchema sc name")
      case True
      then show ?thesis using Cons.prems(1) by (simp add: wf_script_def)
    next
      case False
      have "wf_script (sc\<lparr>folder := (\<lambda>type. set_property (folder sc type) name (seeded type name))\<rparr>)"
        by (rule wf_set_property_all [OF Cons.prems(1)])
      then show ?thesis using False by (simp add: wf_script_def)
    qed
    have base: "bucket_base ?sc1 type n = bucket_base sc type n" for type n
    proof (cases "hasSchema sc name")
      case True
      then show ?thesis by (simp add: bucket_base_def)
    next
      case False
      have "map_of (folder sc type) name = None"
        by (rule not_hasSchema_fresh [OF Cons.prems(1) False])
      then show ?thesis
        using False by (simp add: bucket_base_def map_of_set_property)
    qed
    have cur: "script_schema ?sc1 = name" by simp
    from Cons.IH [OF wf1 run] show ?thesis
      unfolding base cur using SetSchema by simp
  next
    case (Push type q)
    from Cons.prems(2) Push obtain sc1 where p: "push sc type q = Inr sc1"
      and run: "register sc1 calls = Inr sc'"
      by (auto split: sum.splits)
    from push_Inr [OF p] obtain old where
      old: "map_of (folder sc type) (script_schema sc) = Some old" and
      sc1: "sc1 = sc\<lparr>folder := (folder sc)
             (type := set_property (folder sc type) (script_schema sc) (old @ [q]))\<rparr>"
      by blast
    have wf1: "wf_script sc1"
      unfolding sc1 by (rule wf_set_property_present [OF Cons.prems(1) old])
    have cur: "script_schema sc1 = script_schema sc" by (simp add: sc1)
    have base: "bucket_base sc1 ty n =
        bucket_base sc ty n @ (if type = ty \<and> script_schema sc = n then [q] else [])" for ty n
      using old by (auto simp: bucket_base_def sc1 map_of_set_property)
    from Cons.IH [OF wf1 run] show ?thesis
      unfolding base cur using Push by simp
  qed
qed

lemma wf_new_Script: "wf_script new_Script"
  by (simp add: wf_script_def new_Script_def)

lemma registered_buckets:
  assumes "register new_Script calls = Inr sc" "(name, items) \<in> set (own_entries (folder sc type))"
  shows "items = seeded type name @ registered type name [] calls"
proof -
  from register_buckets [OF wf_new_Script assms(1)]
  have wf: "wf_script sc" and
    all: "\<And>type name items. map_of (folder sc type) name = Some items \<Longrightarrow>
       items = bucket_base new_Script type name @ registered type name (script_schema new_Script) calls"
    by blast+
  have "set (own_entries (folder sc type)) = set (folder sc type)"
    by (auto simp: own_entries_def)
  then have "(name, items) \<in> set (folder sc type)" using assms(2) by simp
  moreover have "distinct (map fst (folder sc type))" using wf by (simp add: wf_script_def)
  ultimately have "map_of (folder sc type) name = Some items" by simp
  from all [OF this] show ?thesis
    by (simp add: bucket_base_def new_Script_def)
qed

section \<open>Db\<close>

text \<open>The script and the list of probe statements are module-level variables.\<close>

record module_state =
  script :: Script
  syncScripts :: "string list"

definition initial_module :: module_state where
  "initial_module = \<lparr>script = new_Script, syncScripts = []\<rparr>"

record ColumnOptions =
  col_type :: string
  allowNull :: "bool option"
  defaultValue :: "jsval option"
  primaryKey :: "bool option"
  unique :: "bool option"

record DefinitionOptions =
  d_schema :: "string option"
  d_showQuery :: "bool option"

record Model =
  tableName :: string
  schema :: string
  pkColumn :: "string option"
  showQuery :: bool

definition quoted :: "string \<Rightarrow> string" where
  "quoted s = CHR 0x27 # s @ [CHR 0x27]"

definition default_clause :: "jsval \<Rightarrow> string" where
  "default_clause d =
     (case d of
        Bool b \<Rightarrow> if b then '' TRUE'' else '' FALSE''
      | Str s \<Rightarrow> '' '' @ quoted s
      | Num n \<Rightarrow> '' '' @ number_text n
      | Null \<Rightarrow> '' null'')"

text \<open>The loop of \<open>define\<close> over \<open>Object.entries(definitionBody)\<close>.\<close>

fun define_columns ::
  "(string \<times> ColumnOptions) list \<Rightarrow> string option \<Rightarrow> string list \<Rightarrow> string list \<Rightarrow>
   string option \<times> string list \<times> string list" where
  "define_columns [] pk subquery columns = (pk, subquery, columns)"
| "define_columns ((key, val) # entries) pk subquery columns =
     (let allowNull' = nullish (allowNull val) False;
          primaryKey' = nullish (primaryKey val) False;
          unique' = nullish (unique val) False;
          pk' = (if primaryKey' then Some key else pk);
          q0 = key @ '' '' @ col_type val;
          q1 = (if \<not> primaryKey' then q0 @ (if allowNull' then [] else '' NOT NULL'') else q0);
          q2 = q1 @ (if primaryKey' then '' PRIMARY KEY'' else []);
          q3 = (if \<not> primaryKey' then q2 @ (if unique' then '' UNIQUE'' else []) else q2);
          q4 = (case defaultValue val of
                  None \<Rightarrow> q3
                | Some d \<Rightarrow> if d = Str [] then q3 else q3 @ '' DEFAULT'' @ default_clause d)
      in define_columns entries pk' (subquery @ [q4]) (columns @ [key]))"

text \<open>The statement texts that \<open>define\<close> and \<open>setForeignKey\<close> build.\<close>

definition drop_table_statement :: "string \<Rightarrow> string \<Rightarrow> string" where
  "drop_table_statement schema' table = ''DROP TABLE IF EXISTS '' @ schema' @ ''.'' @ table @ '';''"

definition create_table_statement :: "string \<Rightarrow> string \<Rightarrow> string list \<Rightarrow> string" where
  "create_table_statement schema' table subquery =
     ''CREATE TABLE IF NOT EXISTS '' @ schema' @ ''.'' @ table @
     '' ('' @ join '', '' subquery @ '');''"

definition probe_statement :: "string \<Rightarrow> string \<Rightarrow> string list \<Rightarrow> string" where
  "probe_statement schema' table columns =
     ''SELECT '' @ join '', '' columns @ '' FROM '' @ schema' @ ''.'' @ table @ '';''"

definition drop_constraint_statement :: "Model \<Rightarrow> string \<Rightarrow> string" where
  "drop_constraint_statement this constraintName' =
     ''ALTER TABLE IF EXISTS '' @ schema this @ ''.'' @ tableName this @ '' '' @
     ''DROP CONSTRAINT IF EXISTS fk_'' @ constraintName' @ '';''"

definition add_constraint_statement ::
  "Model \<Rightarrow> Model \<Rightarrow> string \<Rightarrow> string \<Rightarrow> string \<Rightarrow> string" where
  "add_constraint_statement this model constraintName' foreignKey referenceKey' =
     ''ALTER TABLE IF EXISTS '' @ schema this @ ''.'' @ tableName this @ '' '' @
     ''ADD CONSTRAINT fk_'' @ constraintName' @ '' '' @
     ''FOREIGN KEY ('' @ foreignKey @ '') '' @
     ''REFERENCES '' @ schema model @ ''.'' @ tableName model @ '' ('' @ referenceKey' @ '') '' @
     ''ON DELETE CASCADE '' @
     ''ON UPDATE CASCADE;''"

definition Db_define ::
  "module_state \<Rightarrow> string \<Rightarrow> ColumnOptions jsobject \<Rightarrow> DefinitionOptions option \<Rightarrow>
   (js_error + Model) \<times> module_state" where
  "Db_define g table definitionBody options =
     (let schema' = nullish (Option.bind options d_schema) ''public'';
          showQuery' = nullish (Option.bind options d_showQuery) False
      in case setSchema (script g) schema' of
           Inl error \<Rightarrow> (Inl error, g)
         | Inr sc1 \<Rightarrow>
             (let (pk, subquery, columns) = define_columns (own_entries definitionBody) None [] []
              in case push sc1 Drop (drop_table_statement schema' table) of
                   Inl error \<Rightarrow> (Inl error, g\<lparr>script := sc1\<rparr>)
                 | Inr sc2 \<Rightarrow>
                     (case push sc2 Create (create_table_statement schema' table subquery) of
                        Inl error \<Rightarrow> (Inl error, g\<lparr>script := sc2\<rparr>)
                      | Inr sc3 \<Rightarrow>
                          (Inr \<lparr>tableName = table, schema = schema', pkColumn = pk,
                                showQuery = showQuery'\<rparr>,
                           \<lparr>script = sc3,
                            syncScripts = syncScripts g @
                              [probe_statement schema' table columns]\<rparr>))))"

record SetForeignKeyOptions =
  constraintName :: "string option"
  referenceKey :: "string option"

definition Model_setForeignKey ::
  "module_state \<Rightarrow> Model \<Rightarrow> Model \<Rightarrow> string \<Rightarrow> SetForeignKeyOptions option \<Rightarrow>
   (js_error + unit) \<times> module_state" where
  "Model_setForeignKey g this model foreignKey options =
     (let constraintName' = nullish (Option.bind options constraintName)
                              (tableName this @ ''_'' @ tableName model);
          referenceKey' = nullish (Option.bind options referenceKey) foreignKey
      in case push (script g) Drop_constraint
                (drop_constraint_statement this constraintName') of
           Inl error \<Rightarrow> (Inl error, g)
         | Inr sc1 \<Rightarrow>
             (case push sc1 Alter
                     (add_constraint_statement this model constraintName' foreignKey
                        referenceKey') of
                Inl error \<Rightarrow> (Inl error, g\<lparr>script := sc1\<rparr>)
              | Inr sc2 \<Rightarrow> (Inr (), g\<lparr>script := sc2\<rparr>)))"

text \<open>
  Declarations of an application, in the order it makes them: tables, and foreign keys
  between models it holds. A declaration that throws ends the run.
\<close>

datatype table_declaration =
    Define string "ColumnOptions jsobject" "DefinitionOptions option"
  | ForeignKey Model Model string "SetForeignKeyOptions option"

fun declare_all :: "module_state \<Rightarrow> table_declaration list \<Rightarrow> js_error + module_state" where
  "declare_all g [] = Inr g"
| "declare_all g (Define table body options # ds) =
     (case Db_define g table body options of
        (Inl error, g1) \<Rightarrow> Inl error
      | (Inr model, g1) \<Rightarrow> declare_all g1 ds)"
| "declare_all g (ForeignKey this model foreignKey options # ds) =
     (case Model_setForeignKey g this model foreignKey options of
        (Inl error, g1) \<Rightarrow> Inl error
      | (Inr u, g1) \<Rightarrow> declare_all g1 ds)"

text \<open>The calls on the script that a list of declarations makes.\<close>

fun script_calls :: "table_declaration list \<Rightarrow> registration list" where
  "script_calls [] = []"
| "script_calls (Define table body options # ds) =
     [SetSchema (nullish (Option.bind options d_schema) ''public''),
      Push Drop (drop_table_statement (nullish (Option.bind options d_schema) ''public'') table),
      Push Create
        (create_table_statement (nullish (Option.bind options d_schema) ''public'') table
           (fst (snd (define_columns (own_entries body) None [] []))))] @
     script_calls ds"
| "script_calls (ForeignKey this model foreignKey options # ds) =
     [Push Drop_constraint
        (drop_constraint_statement this
           (nullish (Option.bind options constraintName)
              (tableName this @ ''_'' @ tableName model))),
      Push Alter
        (add_constraint_statement this model
           (nullish (Option.bind options constraintName)
              (tableName this @ ''_'' @ tableName model))
           foreignKey (nullish (Option.bind options referenceKey) foreignKey))] @
     script_calls ds"

definition Db_transaction ::
  "driver \<Rightarrow> TransactionOptions option \<Rightarrow> world \<Rightarrow> (js_error + ref) \<times> world" where
  "Db_transaction drv options w = Pool_transaction drv options w"

record SyncOptions =
  s_alter :: "bool option"
  s_onSuccessAlter :: "(ref \<Rightarrow> world \<Rightarrow> (js_error + unit) \<times> world) option"

text \<open>
  The three nested loops of \<open>sync\<close>. \<open>Return\<close> says that the \<open>return\<close> inside the innermost
  loop was reached, which leaves all three.
\<close>

datatype flow = Continue | Return

definition sequence :: "QueryType list" where
  "sequence = [Drop_constraint, Drop, Schema, Create, Alter]"

fun sync_queries_loop :: "driver \<Rightarrow> ref \<Rightarrow> string list \<Rightarrow> world \<Rightarrow> flow \<times> world" where
  "sync_queries_loop drv transaction [] w = (Continue, w)"
| "sync_queries_loop drv transaction (q # queries) w =
     (let (response, w1) = Pool_query drv q (Some (through transaction)) w
      in if \<not> isSuccess (as_object response) then (Return, w1)
         else sync_queries_loop drv transaction queries w1)"

fun sync_types_loop :: "driver \<Rightarrow> ref \<Rightarrow> string list list \<Rightarrow> world \<Rightarrow> flow \<times> world" where
  "sync_types_loop drv transaction [] w = (Continue, w)"
| "sync_types_loop drv transaction (type # types) w =
     (case sync_queries_loop drv transaction type w of
        (Return, w1) \<Rightarrow> (Return, w1)
      | (Continue, w1) \<Rightarrow> sync_types_loop drv transaction types w1)"

fun sync_sequence_loop ::
  "driver \<Rightarrow> ref \<Rightarrow> (QueryType \<Rightarrow> string list jsobject) \<Rightarrow> QueryType list \<Rightarrow> world \<Rightarrow>
   flow \<times> world" where
  "sync_sequence_loop drv transaction dir [] w = (Continue, w)"
| "sync_sequence_loop drv transaction dir (key # keys) w =
     (case sync_types_loop drv transaction (object_values (dir key)) w of
        (Return, w1) \<Rightarrow> (Return, w1)
      | (Continue, w1) \<Rightarrow> sync_sequence_loop drv transaction dir keys w1)"

fun sync_probe_loop :: "driver \<Rightarrow> string list \<Rightarrow> world \<Rightarrow> world" where
  "sync_probe_loop drv [] w = w"
| "sync_probe_loop drv (q # queries) w = sync_probe_loop drv queries (snd (Pool_query drv q None w))"

definition Db_sync ::
  "driver \<Rightarrow> module_state \<Rightarrow> SyncOptions option \<Rightarrow> world \<Rightarrow> (js_error + unit) \<times> world" where
  "Db_sync drv g options w =
     (let alter = nullish (Option.bind options s_alter) False;
          onSuccessAlter = nullish (Option.bind options s_onSuccessAlter)
                             (\<lambda>transaction w. (Inr (), w))
      in if \<not> alter then (Inr (), sync_probe_loop drv (syncScripts g) w)
         else (case Db_transaction drv (Some \<lparr>t_rollbackOnError = Some True\<rparr>) w of
                 (Inl error, w1) \<Rightarrow> (Inl error, w1)
               | (Inr transaction, w1) \<Rightarrow>
                   (case sync_sequence_loop drv transaction (getFolder (script g)) sequence w1 of
                      (Return, w2) \<Rightarrow> (Inr (), w2)
                    | (Continue, w2) \<Rightarrow>
                        (case onSuccessAlter transaction w2 of
                           (Inl error, w3) \<Rightarrow> (Inl error, w3)
                         | (Inr u, w3) \<Rightarrow>
                             (Inr (), Transaction_commit drv transaction None w3)))))"

text \<open>
  The order in which the loops reach the statements of a folder, each with the query type
  of its bucket, and the position of a query type in \<open>sequence\<close>.
\<close>

definition sync_iteration :: "(QueryType \<Rightarrow> string list jsobject) \<Rightarrow> (QueryType \<times> string) list" where
  "sync_iteration dir =
     concat (map (\<lambda>key. map (Pair key) (concat (object_values (dir key)))) sequence)"

definition sync_statements :: "(QueryType \<Rightarrow> string list jsobject) \<Rightarrow> string list" where
  "sync_statements dir = map snd (sync_iteration dir)"

fun rank :: "QueryType \<Rightarrow> nat" where
  "rank Drop_constraint = 0"
| "rank Drop = 1"
| "rank Schema = 2"
| "rank Create = 3"
| "rank Alter = 4"


section \<open>Model\<close>

text \<open>
  What an operation of a model hands back inside \<open>modelHandler\<close>: one row, an array of rows,
  or \<open>undefined\<close> (an index or a property that is not there). \<open>modelHandler\<close> turns a
  thrown error into \<open>null\<close>, here \<open>None\<close>, after logging its message.
\<close>

datatype returned = RowValue row | RowArray "row list" | UndefinedValue

record ModelOptions =
  m_where :: "ref option"
  m_transaction :: "ref option"

definition modelHandler ::
  "(world \<Rightarrow> (js_error + returned) \<times> world) \<Rightarrow> world \<Rightarrow> returned option \<times> world" where
  "modelHandler callback w =
     (case callback w of
        (Inr v, w1) \<Rightarrow> (Some v, w1)
      | (Inl error, w1) \<Rightarrow> (None, console_log (DbError (err_message error)) w1))"

text \<open>
  \<open>obj[key] = v\<close> on a plain object, for a value that is not itself an object. An own
  property is overwritten where it stands. A name that is not an own property is looked up
  on \<open>Object.prototype\<close>: what is found there is a writable data property, which the
  assignment shadows with a new own property, except for \<open>__proto__\<close>, an accessor. Its
  setter is called instead; it ignores a number, a string and a boolean, and for \<open>null\<close> it
  replaces the prototype: in no case does the object get an own property, so its own
  entries stay as they were.
\<close>

definition assign_member :: "jsval jsobject \<Rightarrow> string \<Rightarrow> jsval \<Rightarrow> jsval jsobject" where
  "assign_member obj key v =
     (case get_member obj key of
        Own old \<Rightarrow> set_property obj key v
      | Inherited \<Rightarrow> if key = ''__proto__'' then obj else set_property obj key v
      | Missing \<Rightarrow> set_property obj key v)"

text \<open>\<open>{}\<close> and \<open>obj[key] = v\<close> on the store of objects.\<close>

definition new_object :: "jsval jsobject \<Rightarrow> world \<Rightarrow> ref \<times> world" where
  "new_object obj w =
     (object_count w,
      w\<lparr>objects := (objects w)(object_count w := obj), object_count := object_count w + 1\<rparr>)"

definition assign_property :: "ref \<Rightarrow> string \<Rightarrow> jsval \<Rightarrow> world \<Rightarrow> world" where
  "assign_property r key v w = w\<lparr>objects := (objects w)(r := assign_member (objects w r) key v)\<rparr>"

text \<open>Values inside template literals.\<close>

definition value_text :: "jsval \<Rightarrow> string" where
  "value_text v =
     (case v of
        Num n \<Rightarrow> number_text n
      | Str s \<Rightarrow> s
      | Bool b \<Rightarrow> if b then ''true'' else ''false''
      | Null \<Rightarrow> ''null'')"

definition pk_text :: "jsval \<Rightarrow> string" where
  "pk_text pk = (case pk of Str s \<Rightarrow> quoted s | other \<Rightarrow> value_text other)"

definition message_text :: "DbResult \<Rightarrow> string" where
  "message_text response =
     (case response of
        DbFailed f \<Rightarrow> (case message f of Text m \<Rightarrow> m | Thrown error \<Rightarrow> error_text error)
      | DbSuccess r \<Rightarrow> ''undefined'')"

text \<open>\<open>response.rows\<close>, \<open>response.rows[0]\<close> and \<open>response.rows.length\<close> as JavaScript reads them.\<close>

definition response_rows :: "DbResult \<Rightarrow> returned" where
  "response_rows response =
     (case response of DbSuccess r \<Rightarrow> RowArray (rows r) | DbFailed f \<Rightarrow> UndefinedValue)"

definition first_row :: "DbResult \<Rightarrow> js_error + returned" where
  "first_row response =
     (case response of
        DbSuccess r \<Rightarrow> Inr (case rows r of [] \<Rightarrow> UndefinedValue | x # xs \<Rightarrow> RowValue x)
      | DbFailed f \<Rightarrow> Inl (TypeError ''Cannot read properties of undefined (reading '0')''))"

definition rows_length :: "DbResult \<Rightarrow> js_error + nat" where
  "rows_length response =
     (case response of
        DbSuccess r \<Rightarrow> Inr (length (rows r))
      | DbFailed f \<Rightarrow> Inl (TypeError ''Cannot read properties of undefined (reading 'length')''))"

text \<open>The call \<open>pool.query(query, { values, showQuery, transaction })\<close> of every operation.\<close>

definition model_query ::
  "driver \<Rightarrow> Model \<Rightarrow> string \<Rightarrow> jsval list \<Rightarrow> ref option \<Rightarrow> world \<Rightarrow> DbResult \<times> world" where
  "model_query drv m q vs transaction w =
     Pool_query drv q
       (Some \<lparr>o_values = Some vs, o_showError = None, o_showQuery = Some (showQuery m),
              o_transaction = transaction\<rparr>) w"

text \<open>\<open>options?.where ? ` WHERE ${placeholder.generate(options.where, ' AND ')}` : ''\<close>\<close>

definition where_clause :: "Placeholder \<Rightarrow> jsval jsobject \<Rightarrow> string \<times> Placeholder" where
  "where_clause placeholder obj =
     (let (generated, placeholder1) = generate placeholder (Fields obj) (Some '' AND '')
      in ('' WHERE '' @ generated, placeholder1))"

definition optional_where ::
  "Placeholder \<Rightarrow> jsval jsobject option \<Rightarrow> string \<times> Placeholder" where
  "optional_where placeholder obj =
     (case obj of None \<Rightarrow> ([], placeholder) | Some obj' \<Rightarrow> where_clause placeholder obj')"

definition where_object :: "ModelOptions option \<Rightarrow> world \<Rightarrow> jsval jsobject option" where
  "where_object options w = map_option (objects w) (Option.bind options m_where)"

definition object_arg_of :: "jsval jsobject option \<Rightarrow> jsval object_arg" where
  "object_arg_of obj = (case obj of None \<Rightarrow> Undefined | Some obj' \<Rightarrow> Object obj')"

definition table_name :: "Model \<Rightarrow> string" where
  "table_name m = schema m @ ''.'' @ tableName m"

definition create_query :: "Model \<Rightarrow> jsval jsobject \<Rightarrow> string" where
  "create_query m body =
     ''INSERT INTO '' @ table_name m @ '' ('' @ join '', '' (object_keys body) @ '') '' @
     ''VALUES ('' @
     fst (generate new_Placeholder
            (Count (int (length (object_values body))) :: jsval generate_param) None) @
     '') RETURNING *;''"

definition create_callback ::
  "driver \<Rightarrow> Model \<Rightarrow> jsval jsobject \<Rightarrow> ModelOptions option \<Rightarrow> world \<Rightarrow>
   (js_error + returned) \<times> world" where
  "create_callback drv m body options w =
     (let (response, w1) = model_query drv m (create_query m body) (object_values body)
                             (Option.bind options m_transaction) w
      in if \<not> isSuccess (as_object response)
         then (Inl (Error (''Failed to create data. '' @ message_text response)), w1)
         else (first_row response, w1))"

definition Model_create ::
  "driver \<Rightarrow> Model \<Rightarrow> jsval jsobject \<Rightarrow> ModelOptions option \<Rightarrow> world \<Rightarrow> returned option \<times> world" where
  "Model_create drv m body options = modelHandler (create_callback drv m body options)"

definition find_query :: "Model \<Rightarrow> jsval jsobject option \<Rightarrow> string" where
  "find_query m obj =
     ''SELECT * FROM '' @ table_name m @ fst (optional_where new_Placeholder obj) @ '';''"

definition update_query :: "Model \<Rightarrow> jsval jsobject \<Rightarrow> jsval jsobject option \<Rightarrow> string" where
  "update_query m bodyToUpdate obj =
     (let (generated, placeholder1) = generate new_Placeholder (Fields bodyToUpdate) None
      in ''UPDATE '' @ table_name m @ '' '' @ (''SET '' @ generated) @
         fst (optional_where placeholder1 obj) @ '' RETURNING *;'')"

definition delete_query :: "Model \<Rightarrow> jsval jsobject option \<Rightarrow> string" where
  "delete_query m obj =
     ''DELETE FROM '' @ table_name m @ fst (optional_where new_Placeholder obj) @
     '' RETURNING *;''"

text \<open>
  The common tail of \<open>find\<close>, \<open>update\<close> and \<open>delete\<close>: flatten the values, run the statement,
  throw on a failure, return \<open>response.rows\<close>. \<open>verb\<close> is the word in the error message.
\<close>

definition rows_callback ::
  "driver \<Rightarrow> Model \<Rightarrow> string \<Rightarrow> string \<Rightarrow> jsval object_arg list \<Rightarrow> ref option \<Rightarrow> world \<Rightarrow>
   (js_error + returned) \<times> world" where
  "rows_callback drv m verb q args transaction w =
     (case values_of args of
        Inl error \<Rightarrow> (Inl error, w)
      | Inr vs \<Rightarrow>
          (let (response, w1) = model_query drv m q vs transaction w
           in if \<not> isSuccess (as_object response)
              then (Inl (Error (''Failed to '' @ verb @ '' data. '' @ message_text response)), w1)
              else (Inr (response_rows response), w1)))"

definition Model_find ::
  "driver \<Rightarrow> Model \<Rightarrow> ModelOptions option \<Rightarrow> world \<Rightarrow> returned option \<times> world" where
  "Model_find drv m options w =
     modelHandler
       (rows_callback drv m ''find'' (find_query m (where_object options w))
          [object_arg_of (where_object options w)] (Option.bind options m_transaction)) w"

definition Model_update ::
  "driver \<Rightarrow> Model \<Rightarrow> jsval jsobject \<Rightarrow> ModelOptions option \<Rightarrow> world \<Rightarrow> returned option \<times> world" where
  "Model_update drv m bodyToUpdate options w =
     modelHandler
       (rows_callback drv m ''update'' (update_query m bodyToUpdate (where_object options w))
          [Object bodyToUpdate, object_arg_of (where_object options w)]
          (Option.bind options m_transaction)) w"

definition Model_delete ::
  "driver \<Rightarrow> Model \<Rightarrow> ModelOptions option \<Rightarrow> world \<Rightarrow> returned option \<times> world" where
  "Model_delete drv m options w =
     modelHandler
       (rows_callback drv m ''delete'' (delete_query m (where_object options w))
          [object_arg_of (where_object options w)] (Option.bind options m_transaction)) w"

text \<open>
  The head of the three by-pk operations: \<open>options.where\<close> is the caller's object when there
  is one and a new empty object otherwise, and the primary key is assigned into it.
\<close>

definition pk_where :: "ModelOptions option \<Rightarrow> string \<Rightarrow> jsval \<Rightarrow> world \<Rightarrow> ref \<times> world" where
  "pk_where options pkColumn' pk w =
     (let (r, w1) = (case Option.bind options m_where of
                       None \<Rightarrow> new_object [] w
                     | Some r \<Rightarrow> (r, w))
      in (r, assign_property r pkColumn' pk w1))"

definition find_by_pk_query :: "Model \<Rightarrow> jsval jsobject \<Rightarrow> string" where
  "find_by_pk_query m obj =
     ''SELECT * FROM '' @ table_name m @ fst (where_clause new_Placeholder obj) @ '';''"

definition update_by_pk_query :: "Model \<Rightarrow> jsval jsobject \<Rightarrow> jsval jsobject \<Rightarrow> string" where
  "update_by_pk_query m bodyToUpdate obj =
     (let (generated, placeholder1) = generate new_Placeholder (Fields bodyToUpdate) None
      in ''UPDATE '' @ table_name m @ ('' SET '' @ generated) @
         fst (where_clause placeholder1 obj) @ '' RETURNING *;'')"

definition delete_by_pk_query :: "Model \<Rightarrow> jsval jsobject \<Rightarrow> string" where
  "delete_by_pk_query m obj =
     ''DELETE FROM '' @ table_name m @ fst (where_clause new_Placeholder obj) @
     '' RETURNING *;''"

text \<open>
  The common tail of the by-pk operations: run the statement, throw on a failure, throw when
  no row came back, return \<open>response.rows[0]\<close>.
\<close>

definition row_callback ::
  "driver \<Rightarrow> Model \<Rightarrow> string \<Rightarrow> string \<Rightarrow> jsval \<Rightarrow> string \<Rightarrow> jsval object_arg list \<Rightarrow>
   ref option \<Rightarrow> world \<Rightarrow> (js_error + returned) \<times> world" where
  "row_callback drv m verb pkColumn' pk q args transaction w =
     (case values_of args of
        Inl error \<Rightarrow> (Inl error, w)
      | Inr vs \<Rightarrow>
          (let (response, w1) = model_query drv m q vs transaction w
           in if \<not> isSuccess (as_object response)
              then (Inl (Error (''Failed to '' @ verb @ '' data by pk ('' @ pkColumn' @ ''='' @
                                pk_text pk @ ''). '' @ message_text response)), w1)
              else (case rows_length response of
                      Inl error \<Rightarrow> (Inl error, w1)
                    | Inr n \<Rightarrow>
                        if n = 0
                        then (Inl (Error (''Failed to '' @ verb @ '' data by pk ('' @ pkColumn' @
                                          ''='' @ value_text pk @ ''). No data found'')), w1)
                        else (first_row response, w1))))"

definition no_primary_key :: "Model \<Rightarrow> string \<Rightarrow> js_error" where
  "no_primary_key m verb =
     Error (''Failed to '' @ verb @ '' data by pk. Table '' @ tableName m @
            '' does not have a primary key'')"

definition findByPk_callback ::
  "driver \<Rightarrow> Model \<Rightarrow> jsval \<Rightarrow> ModelOptions option \<Rightarrow> world \<Rightarrow> (js_error + returned) \<times> world" where
  "findByPk_callback drv m pk options w =
     (case pkColumn m of
        None \<Rightarrow> (Inl (no_primary_key m ''find''), w)
      | Some pkColumn' \<Rightarrow>
          (let (r, w1) = pk_where options pkColumn' pk w
           in row_callback drv m ''find'' pkColumn' pk (find_by_pk_query m (objects w1 r))
                [Object (objects w1 r)] (Option.bind options m_transaction) w1))"

definition updateByPk_callback ::
  "driver \<Rightarrow> Model \<Rightarrow> jsval \<Rightarrow> jsval jsobject \<Rightarrow> ModelOptions option \<Rightarrow> world \<Rightarrow>
   (js_error + returned) \<times> world" where
  "updateByPk_callback drv m pk bodyToUpdate options w =
     (case pkColumn m of
        None \<Rightarrow> (Inl (no_primary_key m ''update''), w)
      | Some pkColumn' \<Rightarrow>
          (let (r, w1) = pk_where options pkColumn' pk w
           in row_callback drv m ''update'' pkColumn' pk
                (update_by_pk_query m bodyToUpdate (objects w1 r))
                [Object bodyToUpdate, Object (objects w1 r)]
                (Option.bind options m_transaction) w1))"

definition deleteByPk_callback ::
  "driver \<Rightarrow> Model \<Rightarrow> jsval \<Rightarrow> ModelOptions option \<Rightarrow> world \<Rightarrow> (js_error + returned) \<times> world" where
  "deleteByPk_callback drv m pk options w =
     (case pkColumn m of
        None \<Rightarrow> (Inl (no_primary_key m ''delete''), w)
      | Some pkColumn' \<Rightarrow>
          (let (r, w1) = pk_where options pkColumn' pk w
           in row_callback drv m ''delete'' pkColumn' pk (delete_by_pk_query m (objects w1 r))
                [Object (objects w1 r)] (Option.bind options m_transaction) w1))"

definition Model_findByPk ::
  "driver \<Rightarrow> Model \<Rightarrow> jsval \<Rightarrow> ModelOptions option \<Rightarrow> world \<Rightarrow> returned option \<times> world" where
  "Model_findByPk drv m pk options = modelHandler (findByPk_callback drv m pk options)"

definition Model_updateByPk ::
  "driver \<Rightarrow> Model \<Rightarrow> jsval \<Rightarrow> jsval jsobject \<Rightarrow> ModelOptions option \<Rightarrow> world \<Rightarrow>
   returned option \<times> world" where
  "Model_updateByPk drv m pk bodyToUpdate options =
     modelHandler (updateByPk_callback drv m pk bodyToUpdate options)"

definition Model_deleteByPk ::
  "driver \<Rightarrow> Model \<Rightarrow> jsval \<Rightarrow> ModelOptions option \<Rightarrow> world \<Rightarrow> returned option \<times> world" where
  "Model_deleteByPk drv m pk options = modelHandler (deleteByPk_callback drv m pk options)"

section \<open>Properties of synchronisation\<close>

lemma query_attempt_bound:
  assumes "conn (transactions w t) = Some c"
  shows "query_attempt drv q (Some (through t)) w = driver_query drv (Client c) q [] w"
  using assms by (simp add: query_attempt_def through_def query_tryHandler_def conn_query_def)

lemma Pool_query_bound_success:
  assumes "conn (transactions w t) = Some c" "execute drv (trace w) (Client c) q [] = Inr r"
  shows "Pool_query drv q (Some (through t)) w =
      (DbSuccess r, w\<lparr>trace := trace w @ [Executed (Client c) q [] (Inr r)]\<rparr>)"
proof -
  have "query_attempt drv q (Some (through t)) w =
      (Inr r, w\<lparr>trace := trace w @ [Executed (Client c) q [] (Inr r)]\<rparr>)"
    using assms by (simp add: query_attempt_bound driver_query_def Let_def)
  then show ?thesis by (simp add: Pool_query_cases)
qed

lemma Pool_query_bound_failure:
  assumes "conn (transactions w t) = Some c" "execute drv (trace w) (Client c) q [] = Inl e"
  shows "Pool_query drv q (Some (through t)) w =
      (DbFailed (failure q [] e),
       shown True (failure q [] e)
         (query_errorHandler drv (Some t) e
            (w\<lparr>trace := trace w @ [Executed (Client c) q [] (Inl e)]\<rparr>)))"
proof -
  have "query_attempt drv q (Some (through t)) w =
      (Inl e, w\<lparr>trace := trace w @ [Executed (Client c) q [] (Inl e)]\<rparr>)"
    using assms by (simp add: query_attempt_bound driver_query_def Let_def)
  then show ?thesis by (simp add: Pool_query_cases shown_def through_def)
qed

lemma sync_queries_loop_append:
  "sync_queries_loop drv t (pre @ post) w =
     (case sync_queries_loop drv t pre w of
        (Return, w1) \<Rightarrow> (Return, w1)
      | (Continue, w1) \<Rightarrow> sync_queries_loop drv t post w1)"
  by (induction pre arbitrary: w) (simp_all add: split_beta)

lemma sync_types_loop_flat:
  "sync_types_loop drv t types w = sync_queries_loop drv t (concat types) w"
  by (induction types arbitrary: w) (auto simp: sync_queries_loop_append split: prod.splits flow.splits)

lemma sync_sequence_loop_flat:
  "sync_sequence_loop drv t dir keys w =
     sync_queries_loop drv t (concat (map (\<lambda>key. concat (object_values (dir key))) keys)) w"
  by (induction keys arbitrary: w)
    (auto simp: sync_queries_loop_append sync_types_loop_flat split: prod.splits flow.splits)

lemma sync_statements_eq:
  "sync_statements dir = concat (map (\<lambda>key. concat (object_values (dir key))) sequence)"
  by (simp add: sync_statements_def sync_iteration_def sequence_def comp_def)

lemma sorted_map_const: "sorted (map (\<lambda>x. c :: nat) xs)"
  by (induction xs) auto

lemma sync_iteration_sorted:
  "sorted (map (rank \<circ> fst) (sync_iteration dir))"
  by (auto simp: sync_iteration_def sequence_def sorted_append comp_def sorted_map_const)

lemma sync_iteration_order:
  assumes "i < length (sync_iteration dir)" "j < length (sync_iteration dir)"
    "rank (fst (sync_iteration dir ! i)) < rank (fst (sync_iteration dir ! j))"
  shows "i < j"
proof (rule ccontr)
  assume "\<not> i < j"
  then have "j \<le> i" by simp
  with sync_iteration_sorted [of dir] assms(1)
  have "map (rank \<circ> fst) (sync_iteration dir) ! j \<le> map (rank \<circ> fst) (sync_iteration dir) ! i"
    by (simp add: sorted_iff_nth_mono del: map_map)
  with assms show False by simp
qed


lemma new_events_refl [simp]: "new_events w w = []"
  by (simp add: new_events_def)

text \<open>An event is accepted when it is a statement that the driver resolved.\<close>

fun accepted :: "event \<Rightarrow> bool" where
  "accepted (Executed tgt q vs (Inr r)) = True"
| "accepted e = False"

lemma sync_queries_loop_Continue:
  assumes "conn (transactions w t) = Some c" "sync_queries_loop drv t qs w = (Continue, w')"
  shows "\<exists>es. trace w' = trace w @ es \<and> executed_statements es = qs \<and> list_all accepted es \<and>
     transactions w' = transactions w \<and> objects w' = objects w"
  using assms
proof (induction qs arbitrary: w)
  case Nil
  then show ?case by simp
next
  case (Cons q qs)
  show ?case
  proof (cases "execute drv (trace w) (Client c) q []")
    case (Inl e)
    with Cons.prems show ?thesis
      by (simp add: Pool_query_bound_failure [OF Cons.prems(1) Inl])
  next
    case (Inr r)
    let ?w1 = "w\<lparr>trace := trace w @ [Executed (Client c) q [] (Inr r)]\<rparr>"
    have run: "sync_queries_loop drv t qs ?w1 = (Continue, w')"
      using Cons.prems by (simp add: Pool_query_bound_success [OF Cons.prems(1) Inr])
    have c1: "conn (transactions ?w1 t) = Some c" using Cons.prems(1) by simp
    from Cons.IH [OF c1 run] obtain es where
      "trace w' = trace ?w1 @ es" "executed_statements es = qs" "list_all accepted es"
      "transactions w' = transactions ?w1" "objects w' = objects ?w1" by blast
    then show ?thesis
      by (intro exI [of _ "Executed (Client c) q [] (Inr r) # es"]) simp
  qed
qed


lemma sync_queries_loop_Return:
  assumes "conn (transactions w t) = Some c" "rollbackOnError (transactions w t)"
    "sync_queries_loop drv t qs w = (Return, w')"
  shows "\<exists>k es. k < length qs \<and> trace w' = trace w @ es \<and>
     executed_statements es = take (Suc k) qs @ [''ROLLBACK''] \<and>
     conn (transactions w' t) = None"
  using assms
proof (induction qs arbitrary: w)
  case Nil
  then show ?case by simp
next
  case (Cons q qs)
  show ?case
  proof (cases "execute drv (trace w) (Client c) q []")
    case (Inl e)
    let ?w2 = "w\<lparr>trace := trace w @ [Executed (Client c) q [] (Inl e)]\<rparr>"
    let ?es = "[Executed (Client c) q [] (Inl e)] @ statement_events drv c ''ROLLBACK'' True ?w2 @
      [Released c, Logged (QueryError (failure q [] e))]"
    have bound2: "conn (transactions ?w2 t) = Some c" using Cons.prems(1) by simp
    have w': "w' = shown True (failure q [] e) (Transaction_rollback drv t None ?w2)"
      using Cons.prems Pool_query_bound_failure [OF Cons.prems(1) Inl]
      by (simp add: query_errorHandler_def)
    have tr: "trace (Transaction_rollback drv t None ?w2) =
        trace ?w2 @ statement_events drv c ''ROLLBACK'' True ?w2 @ [Released c]"
      using rollback_bound(1) [OF bound2, of drv None] by simp
    have "trace w' = trace w @ ?es"
      by (simp add: w' tr)
    moreover have "executed_statements ?es = take (Suc 0) (q # qs) @ [''ROLLBACK'']"
      by simp
    moreover have "conn (transactions w' t) = None"
      by (simp add: w' rollback_bound(2) [OF bound2])
    ultimately show ?thesis
      by (intro exI [of _ 0] exI [of _ ?es]) simp
  next
    case (Inr r)
    let ?w1 = "w\<lparr>trace := trace w @ [Executed (Client c) q [] (Inr r)]\<rparr>"
    have run: "sync_queries_loop drv t qs ?w1 = (Return, w')"
      using Cons.prems by (simp add: Pool_query_bound_success [OF Cons.prems(1) Inr])
    have c1: "conn (transactions ?w1 t) = Some c" using Cons.prems(1) by simp
    have f1: "rollbackOnError (transactions ?w1 t)" using Cons.prems(2) by simp
    from Cons.IH [OF c1 f1 run] obtain k es where
      "k < length qs" "trace w' = trace ?w1 @ es"
      "executed_statements es = take (Suc k) qs @ [''ROLLBACK'']"
      "conn (transactions w' t) = None" by blast
    then show ?thesis
      by (intro exI [of _ "Suc k"] exI [of _ "Executed (Client c) q [] (Inr r) # es"]) simp
  qed
qed


lemma Db_transaction_bound:
  assumes "Db_transaction drv (Some \<lparr>t_rollbackOnError = Some True\<rparr>) w = (Inr t, w1)"
  shows "\<exists>c. conn (transactions w1 t) = Some c" and "rollbackOnError (transactions w1 t)"
proof -
  let ?t = "transaction_count w"
  let ?w0 = "w\<lparr>transactions := (transactions w)(?t := \<lparr>conn = None, rollbackOnError = True\<rparr>),
               transaction_count := ?t + 1\<rparr>"
  have new: "new_Transaction (Some \<lparr>t_rollbackOnError = Some True\<rparr>) w = (?t, ?w0)"
    by (simp add: new_Transaction_def Let_def)
  obtain r w2 where pc: "pool_connect drv ?w0 = (r, w2)" by (cases "pool_connect drv ?w0")
  then have same: "transactions w2 = transactions ?w0" by (simp only: pool_connect_cases)
  have run: "Db_transaction drv (Some \<lparr>t_rollbackOnError = Some True\<rparr>) w =
      (case r of Inl error \<Rightarrow> (Inl error, w2)
       | Inr c \<Rightarrow> (Inr ?t, Transaction_begin drv ?t c None w2))"
    by (simp only: Db_transaction_def Pool_transaction_def new Let_def prod.case pc)
  from assms run obtain c where t: "t = ?t" and w1: "w1 = Transaction_begin drv ?t c None w2"
    by (cases r) auto
  have unbound: "conn (transactions w2 ?t) = None" using same by simp
  have "transactions w1 = (transactions w2)(?t := (transactions w2 ?t)\<lparr>conn := Some c\<rparr>)"
    unfolding w1 by (rule begin_unbound(2) [OF unbound])
  then show "\<exists>c. conn (transactions w1 t) = Some c" and "rollbackOnError (transactions w1 t)"
    using t same by simp_all
qed

lemma sync_abort:
  assumes bound: "conn (transactions w1 t) = Some c" and flag: "rollbackOnError (transactions w1 t)"
    and pre: "sync_queries_loop drv t pre w1 = (Continue, w2)"
    and fails: "Pool_query drv q (Some (through t)) w2 = (response, w3)"
      "\<not> isSuccess (as_object response)"
  shows "sync_queries_loop drv t (pre @ q # post) w1 = (Return, w3)"
    and "executed_statements (new_events w1 w3) = pre @ [q, ''ROLLBACK'']"
    and "conn (transactions w3 t) = None"
proof -
  show "sync_queries_loop drv t (pre @ q # post) w1 = (Return, w3)"
    using pre fails by (simp add: sync_queries_loop_append)
  from sync_queries_loop_Continue [OF bound pre] obtain es where
    es: "trace w2 = trace w1 @ es" "executed_statements es = pre"
    and tx: "transactions w2 = transactions w1" by blast
  have bound2: "conn (transactions w2 t) = Some c" and flag2: "rollbackOnError (transactions w2 t)"
    using bound flag tx by simp_all
  obtain e where e: "execute drv (trace w2) (Client c) q [] = Inl e"
    using fails Pool_query_bound_success [OF bound2, of drv q]
    by (cases "execute drv (trace w2) (Client c) q []") auto
  let ?w2' = "w2\<lparr>trace := trace w2 @ [Executed (Client c) q [] (Inl e)]\<rparr>"
  have bound2': "conn (transactions ?w2' t) = Some c" using bound2 by simp
  have w3: "w3 = shown True (failure q [] e) (Transaction_rollback drv t None ?w2')"
    using fails(1) flag2 Pool_query_bound_failure [OF bound2 e]
    by (simp add: query_errorHandler_def)
  have tr: "trace (Transaction_rollback drv t None ?w2') =
      trace ?w2' @ statement_events drv c ''ROLLBACK'' True ?w2' @ [Released c]"
    using rollback_bound(1) [OF bound2', of drv None] by simp
  have "trace w3 = trace w2 @ [Executed (Client c) q [] (Inl e)] @
      statement_events drv c ''ROLLBACK'' True ?w2' @
      [Released c, Logged (QueryError (failure q [] e))]"
    by (simp add: w3 tr)
  then show "executed_statements (new_events w1 w3) = pre @ [q, ''ROLLBACK'']"
    using es by (simp add: new_events_def)
  show "conn (transactions w3 t) = None"
    by (simp add: w3 rollback_bound(2) [OF bound2'])
qed

text \<open>
  Claim C6. Let \<open>sync({alter: true, onSuccessAlter})\<close> have opened its transaction \<open>t\<close>,
  world \<open>w1\<close>. If the statements of the buckets, in the order of the loops, are \<open>pre\<close>, then
  \<open>q\<close>, then \<open>post\<close>, all of \<open>pre\<close> succeed, and the result of \<open>q\<close> is a failure, then
  \<open>sync\<close> returns with the world in which that failure came back: nothing of \<open>post\<close> is
  sent, the callback has no part in the result, and no \<open>commit\<close> follows; what was sent
  since \<open>w1\<close> is \<open>pre\<close>, \<open>q\<close> and the \<open>ROLLBACK\<close> of the error handler, and the transaction
  holds no connection. If every statement succeeds, what was sent is the whole list, the
  callback (when given) is called with \<open>t\<close>, which still holds its connection, and when the
  callback resolves \<open>commit\<close> is called on \<open>t\<close> in the world the callback left.
\<close>

theorem sync_fail_fast:
  assumes "Db_transaction drv (Some \<lparr>t_rollbackOnError = Some True\<rparr>) w = (Inr t, w1)"
  shows "(\<forall>pre q post w2 response w3.
       sync_statements (getFolder (script g)) = pre @ q # post \<and>
       sync_queries_loop drv t pre w1 = (Continue, w2) \<and>
       Pool_query drv q (Some (through t)) w2 = (response, w3) \<and>
       \<not> isSuccess (as_object response) \<longrightarrow>
         Db_sync drv g (Some \<lparr>s_alter = Some True, s_onSuccessAlter = callback\<rparr>) w =
           (Inr (), w3) \<and>
         executed_statements (new_events w1 w3) = pre @ [q, ''ROLLBACK''] \<and>
         conn (transactions w3 t) = None) \<and>
    (\<forall>w2. sync_queries_loop drv t (sync_statements (getFolder (script g))) w1 = (Continue, w2) \<longrightarrow>
         Db_sync drv g (Some \<lparr>s_alter = Some True, s_onSuccessAlter = callback\<rparr>) w =
           (case nullish callback (\<lambda>transaction w. (Inr (), w)) t w2 of
              (Inl error, w3) \<Rightarrow> (Inl error, w3)
            | (Inr u, w3) \<Rightarrow> (Inr (), Transaction_commit drv t None w3)) \<and>
         conn (transactions w2 t) \<noteq> None \<and>
         executed_statements (new_events w1 w2) = sync_statements (getFolder (script g)))"
proof -
  let ?F = "getFolder (script g)"
  let ?options = "Some \<lparr>s_alter = Some True, s_onSuccessAlter = callback\<rparr>"
  from Db_transaction_bound [OF assms] obtain c where
    bound: "conn (transactions w1 t) = Some c" and flag: "rollbackOnError (transactions w1 t)"
    by blast
  have loop: "sync_sequence_loop drv t ?F sequence w1 =
      sync_queries_loop drv t (sync_statements ?F) w1"
    by (simp add: sync_sequence_loop_flat sync_statements_eq)
  have aborted: "Db_sync drv g ?options w = (Inr (), w3) \<and>
         executed_statements (new_events w1 w3) = pre @ [q, ''ROLLBACK''] \<and>
         conn (transactions w3 t) = None"
    if "sync_statements ?F = pre @ q # post" "sync_queries_loop drv t pre w1 = (Continue, w2)"
      "Pool_query drv q (Some (through t)) w2 = (response, w3)" "\<not> isSuccess (as_object response)"
    for pre q post w2 response w3
  proof -
    have "sync_queries_loop drv t (sync_statements ?F) w1 = (Return, w3)"
      using sync_abort(1) [OF bound flag that(2) that(3) that(4)] that(1) by simp
    then have "Db_sync drv g ?options w = (Inr (), w3)"
      using assms loop by (simp add: Db_sync_def)
    then show ?thesis
      using sync_abort(2,3) [OF bound flag that(2) that(3) that(4)] by simp
  qed
  have completed: "Db_sync drv g ?options w =
           (case nullish callback (\<lambda>transaction w. (Inr (), w)) t w2 of
              (Inl error, w3) \<Rightarrow> (Inl error, w3)
            | (Inr u, w3) \<Rightarrow> (Inr (), Transaction_commit drv t None w3)) \<and>
         conn (transactions w2 t) \<noteq> None \<and>
         executed_statements (new_events w1 w2) = sync_statements ?F"
    if "sync_queries_loop drv t (sync_statements ?F) w1 = (Continue, w2)" for w2
  proof -
    from sync_queries_loop_Continue [OF bound that] obtain es where
      es: "trace w2 = trace w1 @ es" "executed_statements es = sync_statements ?F"
      and tx: "transactions w2 = transactions w1" by blast
    have "Db_sync drv g ?options w =
           (case nullish callback (\<lambda>transaction w. (Inr (), w)) t w2 of
              (Inl error, w3) \<Rightarrow> (Inl error, w3)
            | (Inr u, w3) \<Rightarrow> (Inr (), Transaction_commit drv t None w3))"
      using assms loop that by (simp add: Db_sync_def)
    then show ?thesis using es tx bound by (simp add: new_events_def)
  qed
  show ?thesis using aborted completed by blast
qed

lemma register_append:
  "register sc (calls @ calls') =
     (case register sc calls of Inl error \<Rightarrow> Inl error | Inr sc1 \<Rightarrow> register sc1 calls')"
  by (induction sc calls rule: register.induct) (simp_all split: sum.splits)

lemma Db_define_calls:
  assumes "Db_define g table body options = (Inr model, g1)"
  shows "register (script g) (script_calls [Define table body options]) = Inr (script g1)"
  using assms
  by (auto simp: Db_define_def Let_def split_beta split: sum.splits)

lemma Model_setForeignKey_calls:
  assumes "Model_setForeignKey g this model foreignKey options = (Inr u, g1)"
  shows "register (script g) (script_calls [ForeignKey this model foreignKey options]) =
     Inr (script g1)"
  using assms
  by (auto simp: Model_setForeignKey_def Let_def split: sum.splits)

lemma script_calls_Cons: "script_calls (d # ds) = script_calls [d] @ script_calls ds"
  by (cases d) simp_all

lemma declare_all_register:
  "declare_all g ds = Inr g' \<Longrightarrow> register (script g) (script_calls ds) = Inr (script g')"
proof (induction ds arbitrary: g)
  case Nil
  then show ?case by simp
next
  case (Cons d ds)
  show ?case
  proof (cases d)
    case (Define table body options)
    with Cons.prems obtain model g1 where
      d1: "Db_define g table body options = (Inr model, g1)" and rest: "declare_all g1 ds = Inr g'"
      by (auto split: prod.splits sum.splits)
    show ?thesis
      unfolding script_calls_Cons [of d ds] register_append
      using Db_define_calls [OF d1] Cons.IH [OF rest] Define by simp
  next
    case (ForeignKey this model foreignKey options)
    with Cons.prems obtain u g1 where
      d1: "Model_setForeignKey g this model foreignKey options = (Inr u, g1)"
      and rest: "declare_all g1 ds = Inr g'"
      by (auto split: prod.splits sum.splits)
    show ?thesis
      unfolding script_calls_Cons [of d ds] register_append
      using Model_setForeignKey_calls [OF d1] Cons.IH [OF rest] ForeignKey by simp
  qed
qed

lemma sync_iteration_buckets:
  "sync_iteration dir =
     concat (map (\<lambda>key. concat (map (\<lambda>bucket. map (Pair key) (snd bucket)) (own_entries (dir key))))
       [Drop_constraint, Drop, Schema, Create, Alter])"
  by (simp add: sync_iteration_def sequence_def object_values_def map_concat comp_def)

text \<open>
  Claim C1. Let the script be the one that any list of \<open>define\<close> and \<open>setForeignKey\<close>
  calls has built, whatever their order, and let \<open>sync({alter: true, onSuccessAlter})\<close>
  have opened its transaction \<open>t\<close>, world \<open>w1\<close>. Then the statements that \<open>sync\<close> sends
  after \<open>w1\<close> follow the list \<open>sync_iteration\<close> of the folder: either \<open>sync\<close> returns at a
  failure, and what it sent is a non-empty initial stretch of that list and the \<open>ROLLBACK\<close>
  of the error handler, or it sent the whole list, and then calls the callback and commits.
  Without a callback the statements sent after \<open>w1\<close> are the whole list and \<open>COMMIT;\<close>, or
  such an initial stretch and \<open>ROLLBACK\<close>. In that list a statement of a query type earlier
  in \<open>drop_constraint, drop, schema, create, alter\<close> stands before every statement of a
  later one, across all schema names; the statements of one bucket stand together, and
  each bucket holds its seed and then the statements pushed to it, in the order of the
  calls.
\<close>

theorem sync_statement_order:
  assumes "declare_all initial_module declarations = Inr g"
    and "Db_transaction drv (Some \<lparr>t_rollbackOnError = Some True\<rparr>) w = (Inr t, w1)"
  shows "(\<exists>es w2. trace w2 = trace w1 @ es \<and>
       (Db_sync drv g (Some \<lparr>s_alter = Some True, s_onSuccessAlter = callback\<rparr>) w =
          (Inr (), w2) \<and>
        (\<exists>k<length (sync_iteration (getFolder (script g))).
           executed_statements es =
             map snd (take (Suc k) (sync_iteration (getFolder (script g)))) @ [''ROLLBACK'']) \<or>
        Db_sync drv g (Some \<lparr>s_alter = Some True, s_onSuccessAlter = callback\<rparr>) w =
          (case nullish callback (\<lambda>transaction w. (Inr (), w)) t w2 of
             (Inl error, w3) \<Rightarrow> (Inl error, w3)
           | (Inr u, w3) \<Rightarrow> (Inr (), Transaction_commit drv t None w3)) \<and>
        executed_statements es = map snd (sync_iteration (getFolder (script g))))) \<and>
    (executed_statements (new_events w1
         (snd (Db_sync drv g (Some \<lparr>s_alter = Some True, s_onSuccessAlter = None\<rparr>) w))) =
       map snd (sync_iteration (getFolder (script g))) @ [''COMMIT;''] \<or>
     (\<exists>k<length (sync_iteration (getFolder (script g))).
        executed_statements (new_events w1
          (snd (Db_sync drv g (Some \<lparr>s_alter = Some True, s_onSuccessAlter = None\<rparr>) w))) =
        map snd (take (Suc k) (sync_iteration (getFolder (script g)))) @ [''ROLLBACK''])) \<and>
    (\<forall>i j. i < length (sync_iteration (getFolder (script g))) \<and>
       j < length (sync_iteration (getFolder (script g))) \<and>
       rank (fst (sync_iteration (getFolder (script g)) ! i)) <
         rank (fst (sync_iteration (getFolder (script g)) ! j)) \<longrightarrow> i < j) \<and>
    sync_iteration (getFolder (script g)) =
      concat (map (\<lambda>key. concat (map (\<lambda>bucket. map (Pair key) (snd bucket))
                (own_entries (getFolder (script g) key))))
        [Drop_constraint, Drop, Schema, Create, Alter]) \<and>
    (\<forall>key name items. (name, items) \<in> set (own_entries (getFolder (script g) key)) \<longrightarrow>
       items = seeded key name @ registered key name [] (script_calls declarations))"
proof -
  let ?F = "getFolder (script g)"
  let ?S = "sync_iteration ?F"
  let ?qs = "sync_statements ?F"
  from Db_transaction_bound [OF assms(2)] obtain c where
    bound: "conn (transactions w1 t) = Some c" and flag: "rollbackOnError (transactions w1 t)"
    by blast
  have loop: "sync_sequence_loop drv t ?F sequence w1 = sync_queries_loop drv t ?qs w1"
    by (simp add: sync_sequence_loop_flat sync_statements_eq)
  have len: "length ?qs = length ?S" and qs: "?qs = map snd ?S"
    and tk: "take n ?qs = map snd (take n ?S)" for n
    by (simp_all add: sync_statements_def take_map)
  obtain fl w2 where run: "sync_queries_loop drv t ?qs w1 = (fl, w2)"
    by (cases "sync_queries_loop drv t ?qs w1")
  have sync: "Db_sync drv g (Some \<lparr>s_alter = Some True, s_onSuccessAlter = cb\<rparr>) w =
      (case fl of
         Return \<Rightarrow> (Inr (), w2)
       | Continue \<Rightarrow>
           (case nullish cb (\<lambda>transaction w. (Inr (), w)) t w2 of
              (Inl error, w3) \<Rightarrow> (Inl error, w3)
            | (Inr u, w3) \<Rightarrow> (Inr (), Transaction_commit drv t None w3)))" for cb
    using assms(2) loop run by (simp add: Db_sync_def)
  have part1: "\<exists>es w2. trace w2 = trace w1 @ es \<and>
       (Db_sync drv g (Some \<lparr>s_alter = Some True, s_onSuccessAlter = callback\<rparr>) w =
          (Inr (), w2) \<and>
        (\<exists>k<length ?S. executed_statements es = map snd (take (Suc k) ?S) @ [''ROLLBACK'']) \<or>
        Db_sync drv g (Some \<lparr>s_alter = Some True, s_onSuccessAlter = callback\<rparr>) w =
          (case nullish callback (\<lambda>transaction w. (Inr (), w)) t w2 of
             (Inl error, w3) \<Rightarrow> (Inl error, w3)
           | (Inr u, w3) \<Rightarrow> (Inr (), Transaction_commit drv t None w3)) \<and>
        executed_statements es = map snd ?S)"
  proof (cases fl)
    case Continue
    with run have "sync_queries_loop drv t ?qs w1 = (Continue, w2)" by simp
    from sync_queries_loop_Continue [OF bound this] obtain es where
      es: "trace w2 = trace w1 @ es" "executed_statements es = ?qs" by blast
    show ?thesis
      using es sync [of callback] Continue qs by (intro exI [of _ es] exI [of _ w2]) simp
  next
    case Return
    with run have "sync_queries_loop drv t ?qs w1 = (Return, w2)" by simp
    from sync_queries_loop_Return [OF bound flag this] obtain k es where
      es: "k < length ?qs" "trace w2 = trace w1 @ es"
        "executed_statements es = take (Suc k) ?qs @ [''ROLLBACK'']" by blast
    have "\<exists>k<length ?S. executed_statements es = map snd (take (Suc k) ?S) @ [''ROLLBACK'']"
      using es(1,3) len tk [of "Suc k"] by auto
    then show ?thesis
      using es(2) sync [of callback] Return by (intro exI [of _ es] exI [of _ w2]) simp
  qed
  have part2: "executed_statements (new_events w1
         (snd (Db_sync drv g (Some \<lparr>s_alter = Some True, s_onSuccessAlter = None\<rparr>) w))) =
       map snd ?S @ [''COMMIT;''] \<or>
     (\<exists>k<length ?S.
        executed_statements (new_events w1
          (snd (Db_sync drv g (Some \<lparr>s_alter = Some True, s_onSuccessAlter = None\<rparr>) w))) =
        map snd (take (Suc k) ?S) @ [''ROLLBACK''])"
  proof (cases fl)
    case Continue
    with run have "sync_queries_loop drv t ?qs w1 = (Continue, w2)" by simp
    from sync_queries_loop_Continue [OF bound this] obtain es where
      es: "trace w2 = trace w1 @ es" "executed_statements es = ?qs"
      and tx: "transactions w2 = transactions w1" by blast
    have bound2: "conn (transactions w2 t) = Some c" using bound tx by simp
    have result: "snd (Db_sync drv g (Some \<lparr>s_alter = Some True, s_onSuccessAlter = None\<rparr>) w) =
        Transaction_commit drv t None w2"
      using sync [of None] Continue by simp
    have "trace (Transaction_commit drv t None w2) =
        trace w1 @ (es @ statement_events drv c ''COMMIT;'' True w2 @ [Released c])"
      using commit_bound(1) [OF bound2, of drv None] es(1) by simp
    then have "executed_statements (new_events w1 (Transaction_commit drv t None w2)) =
        map snd ?S @ [''COMMIT;'']"
      using es(2) qs by (simp add: new_events_append)
    then show ?thesis by (simp only: result simp_thms)
  next
    case Return
    with run have "sync_queries_loop drv t ?qs w1 = (Return, w2)" by simp
    from sync_queries_loop_Return [OF bound flag this] obtain k es where
      es: "k < length ?qs" "trace w2 = trace w1 @ es"
        "executed_statements es = take (Suc k) ?qs @ [''ROLLBACK'']" by blast
    have result: "snd (Db_sync drv g (Some \<lparr>s_alter = Some True, s_onSuccessAlter = None\<rparr>) w) = w2"
      using sync [of None] Return by simp
    have "k < length ?S" using es(1) len by simp
    moreover have "executed_statements (new_events w1 w2) =
        map snd (take (Suc k) ?S) @ [''ROLLBACK'']"
      using es(2,3) tk [of "Suc k"] by (simp add: new_events_append)
    ultimately show ?thesis unfolding result by blast
  qed
  have order: "i < j"
    if "i < length ?S" "j < length ?S" "rank (fst (?S ! i)) < rank (fst (?S ! j))" for i j
    using that by (rule sync_iteration_order)
  have reg: "register new_Script (script_calls declarations) = Inr (script g)"
    using declare_all_register [OF assms(1)] by (simp add: initial_module_def)
  have buckets: "items = seeded key name @ registered key name [] (script_calls declarations)"
    if "(name, items) \<in> set (own_entries (?F key))" for key name items
    using registered_buckets [OF reg] that by (simp add: getFolder_def)
  show ?thesis
    using part1 part2 order sync_iteration_buckets [of ?F] buckets by blast
qed


section \<open>A sample application\<close>

text \<open>Two tables, the one with the foreign key declared first.\<close>

definition serial_key :: ColumnOptions where
  "serial_key = \<lparr>col_type = ''SERIAL'', allowNull = None, defaultValue = None,
     primaryKey = Some True, unique = None\<rparr>"

definition integer_column :: ColumnOptions where
  "integer_column = \<lparr>col_type = ''INTEGER'', allowNull = None, defaultValue = None,
     primaryKey = None, unique = None\<rparr>"

definition model_a :: Model where
  "model_a = \<lparr>tableName = ''a'', schema = ''public'', pkColumn = Some ''id'', showQuery = False\<rparr>"

definition model_b :: Model where
  "model_b = \<lparr>tableName = ''b'', schema = ''public'', pkColumn = Some ''id'', showQuery = False\<rparr>"

definition sample_declarations :: "table_declaration list" where
  "sample_declarations =
     [Define ''b'' [(''id'', serial_key), (''a_id'', integer_column)] None,
      Define ''a'' [(''id'', serial_key)] None,
      ForeignKey model_b model_a ''a_id''
        (Some \<lparr>constraintName = None, referenceKey = Some ''id''\<rparr>)]"

definition sample_module :: module_state where
  "sample_module = projr (declare_all initial_module sample_declarations)"

lemmas script_eval =
  Db_define_def Model_setForeignKey_def setSchema_def addSchema_def hasSchema_def push_def
  array_push_def get_member_def object_prototype_keys_def folder_keys_def new_Script_def
  initial_module_def getFolder_def drop_table_statement_def create_table_statement_def
  probe_statement_def drop_constraint_statement_def add_constraint_statement_def
  default_clause_def quoted_def sync_statements_def sync_iteration_def sequence_def
  serial_key_def integer_column_def model_a_def model_b_def sample_declarations_def
  seeded_def Let_def

lemma sample_declared: "declare_all initial_module sample_declarations = Inr sample_module"
proof -
  have "\<not> isl (declare_all initial_module sample_declarations)"
    by (simp add: script_eval js_eval)
  then show ?thesis by (simp add: sample_module_def)
qed

lemma sample_statements:
  "sync_statements (getFolder (script sample_module)) =
     [''ALTER TABLE IF EXISTS public.b DROP CONSTRAINT IF EXISTS fk_b_a;'',
      ''DROP TABLE IF EXISTS public.b;'',
      ''DROP TABLE IF EXISTS public.a;'',
      ''DROP SCHEMA IF EXISTS public;'',
      ''CREATE SCHEMA IF NOT EXISTS public;'',
      ''CREATE TABLE IF NOT EXISTS public.b (id SERIAL PRIMARY KEY, a_id INTEGER NOT NULL);'',
      ''CREATE TABLE IF NOT EXISTS public.a (id SERIAL PRIMARY KEY);'',
      ''ALTER TABLE IF EXISTS public.b ADD CONSTRAINT fk_b_a FOREIGN KEY (a_id) REFERENCES public.a (id) ON DELETE CASCADE ON UPDATE CASCADE;'']"
  by (simp add: sample_module_def script_eval js_eval)


text \<open>The same two tables, declared in the other order.\<close>

definition reordered_declarations :: "table_declaration list" where
  "reordered_declarations =
     [Define ''a'' [(''id'', serial_key)] None,
      Define ''b'' [(''id'', serial_key), (''a_id'', integer_column)] None,
      ForeignKey model_b model_a ''a_id''
        (Some \<lparr>constraintName = None, referenceKey = Some ''id''\<rparr>)]"

definition reordered_module :: module_state where
  "reordered_module = projr (declare_all initial_module reordered_declarations)"

lemma reordered_declared:
  "declare_all initial_module reordered_declarations = Inr reordered_module"
proof -
  have "\<not> isl (declare_all initial_module reordered_declarations)"
    by (simp add: reordered_declarations_def script_eval js_eval)
  then show ?thesis by (simp add: reordered_module_def)
qed

lemma reordered_statements:
  "sync_statements (getFolder (script reordered_module)) =
     [''ALTER TABLE IF EXISTS public.b DROP CONSTRAINT IF EXISTS fk_b_a;'',
      ''DROP TABLE IF EXISTS public.a;'',
      ''DROP TABLE IF EXISTS public.b;'',
      ''DROP SCHEMA IF EXISTS public;'',
      ''CREATE SCHEMA IF NOT EXISTS public;'',
      ''CREATE TABLE IF NOT EXISTS public.a (id SERIAL PRIMARY KEY);'',
      ''CREATE TABLE IF NOT EXISTS public.b (id SERIAL PRIMARY KEY, a_id INTEGER NOT NULL);'',
      ''ALTER TABLE IF EXISTS public.b ADD CONSTRAINT fk_b_a FOREIGN KEY (a_id) REFERENCES public.a (id) ON DELETE CASCADE ON UPDATE CASCADE;'']"
  by (simp add: reordered_module_def reordered_declarations_def script_eval js_eval)


definition alter_only :: SyncOptions where
  "alter_only = \<lparr>s_alter = Some True, s_onSuccessAlter = None\<rparr>"

definition opened :: "driver \<Rightarrow> world" where
  "opened drv = snd (Db_transaction drv (Some \<lparr>t_rollbackOnError = Some True\<rparr>) initial_world)"

definition create_b :: string where
  "create_b = ''CREATE TABLE IF NOT EXISTS public.b (id SERIAL PRIMARY KEY, a_id INTEGER NOT NULL);''"

lemmas sync_eval =
  alter_only_def Db_transaction_def pool_eval through_def isSuccess_def as_object_def
  failure_keys_def get_property_def opened_def create_b_def

theorem sync_statement_order_witness:
  "declare_all initial_module sample_declarations = Inr sample_module \<and>
   declare_all initial_module reordered_declarations = Inr reordered_module \<and>
   Db_transaction accepting_driver (Some \<lparr>t_rollbackOnError = Some True\<rparr>) initial_world =
     (Inr 0, opened accepting_driver) \<and>
   executed_statements (new_events (opened accepting_driver)
       (snd (Db_sync accepting_driver sample_module (Some alter_only) initial_world))) =
     [''ALTER TABLE IF EXISTS public.b DROP CONSTRAINT IF EXISTS fk_b_a;'',
      ''DROP TABLE IF EXISTS public.b;'',
      ''DROP TABLE IF EXISTS public.a;'',
      ''DROP SCHEMA IF EXISTS public;'',
      ''CREATE SCHEMA IF NOT EXISTS public;'',
      ''CREATE TABLE IF NOT EXISTS public.b (id SERIAL PRIMARY KEY, a_id INTEGER NOT NULL);'',
      ''CREATE TABLE IF NOT EXISTS public.a (id SERIAL PRIMARY KEY);'',
      ''ALTER TABLE IF EXISTS public.b ADD CONSTRAINT fk_b_a FOREIGN KEY (a_id) REFERENCES public.a (id) ON DELETE CASCADE ON UPDATE CASCADE;'',
      ''COMMIT;''] \<and>
   executed_statements (new_events (opened accepting_driver)
       (snd (Db_sync accepting_driver reordered_module (Some alter_only) initial_world))) =
     [''ALTER TABLE IF EXISTS public.b DROP CONSTRAINT IF EXISTS fk_b_a;'',
      ''DROP TABLE IF EXISTS public.a;'',
      ''DROP TABLE IF EXISTS public.b;'',
      ''DROP SCHEMA IF EXISTS public;'',
      ''CREATE SCHEMA IF NOT EXISTS public;'',
      ''CREATE TABLE IF NOT EXISTS public.a (id SERIAL PRIMARY KEY);'',
      ''CREATE TABLE IF NOT EXISTS public.b (id SERIAL PRIMARY KEY, a_id INTEGER NOT NULL);'',
      ''ALTER TABLE IF EXISTS public.b ADD CONSTRAINT fk_b_a FOREIGN KEY (a_id) REFERENCES public.a (id) ON DELETE CASCADE ON UPDATE CASCADE;'',
      ''COMMIT;''] \<and>
   map (rank \<circ> fst) (sync_iteration (getFolder (script sample_module))) =
     [0, 1, 1, 2, 2, 3, 3, 4] \<and>
   map (rank \<circ> fst) (sync_iteration (getFolder (script reordered_module))) =
     [0, 1, 1, 2, 2, 3, 3, 4] \<and>
   Db_transaction (rejecting_driver create_b) (Some \<lparr>t_rollbackOnError = Some True\<rparr>)
       initial_world = (Inr 0, opened (rejecting_driver create_b)) \<and>
   executed_statements (new_events (opened (rejecting_driver create_b))
       (snd (Db_sync (rejecting_driver create_b) reordered_module (Some alter_only)
          initial_world))) =
     [''ALTER TABLE IF EXISTS public.b DROP CONSTRAINT IF EXISTS fk_b_a;'',
      ''DROP TABLE IF EXISTS public.a;'',
      ''DROP TABLE IF EXISTS public.b;'',
      ''DROP SCHEMA IF EXISTS public;'',
      ''CREATE SCHEMA IF NOT EXISTS public;'',
      ''CREATE TABLE IF NOT EXISTS public.a (id SERIAL PRIMARY KEY);'',
      ''CREATE TABLE IF NOT EXISTS public.b (id SERIAL PRIMARY KEY, a_id INTEGER NOT NULL);'',
      ''ROLLBACK'']"
proof -
  have h1: "Db_transaction accepting_driver (Some \<lparr>t_rollbackOnError = Some True\<rparr>)
       initial_world = (Inr 0, opened accepting_driver)"
    by (simp add: prod_eq_iff sync_eval)
  have h2: "Db_transaction (rejecting_driver create_b) (Some \<lparr>t_rollbackOnError = Some True\<rparr>)
       initial_world = (Inr 0, opened (rejecting_driver create_b))"
    by (simp add: prod_eq_iff sync_eval)
  have sample: "executed_statements (new_events (opened accepting_driver)
       (snd (Db_sync accepting_driver sample_module (Some alter_only) initial_world))) =
     [''ALTER TABLE IF EXISTS public.b DROP CONSTRAINT IF EXISTS fk_b_a;'',
      ''DROP TABLE IF EXISTS public.b;'',
      ''DROP TABLE IF EXISTS public.a;'',
      ''DROP SCHEMA IF EXISTS public;'',
      ''CREATE SCHEMA IF NOT EXISTS public;'',
      ''CREATE TABLE IF NOT EXISTS public.b (id SERIAL PRIMARY KEY, a_id INTEGER NOT NULL);'',
      ''CREATE TABLE IF NOT EXISTS public.a (id SERIAL PRIMARY KEY);'',
      ''ALTER TABLE IF EXISTS public.b ADD CONSTRAINT fk_b_a FOREIGN KEY (a_id) REFERENCES public.a (id) ON DELETE CASCADE ON UPDATE CASCADE;'',
      ''COMMIT;'']"
    unfolding Db_sync_def sync_sequence_loop_flat sync_statements_eq [symmetric] sample_statements
    by (simp add: sync_eval)
  have reordered: "executed_statements (new_events (opened accepting_driver)
       (snd (Db_sync accepting_driver reordered_module (Some alter_only) initial_world))) =
     [''ALTER TABLE IF EXISTS public.b DROP CONSTRAINT IF EXISTS fk_b_a;'',
      ''DROP TABLE IF EXISTS public.a;'',
      ''DROP TABLE IF EXISTS public.b;'',
      ''DROP SCHEMA IF EXISTS public;'',
      ''CREATE SCHEMA IF NOT EXISTS public;'',
      ''CREATE TABLE IF NOT EXISTS public.a (id SERIAL PRIMARY KEY);'',
      ''CREATE TABLE IF NOT EXISTS public.b (id SERIAL PRIMARY KEY, a_id INTEGER NOT NULL);'',
      ''ALTER TABLE IF EXISTS public.b ADD CONSTRAINT fk_b_a FOREIGN KEY (a_id) REFERENCES public.a (id) ON DELETE CASCADE ON UPDATE CASCADE;'',
      ''COMMIT;'']"
    unfolding Db_sync_def sync_sequence_loop_flat sync_statements_eq [symmetric]
      reordered_statements
    by (simp add: sync_eval)
  have rejected: "executed_statements (new_events (opened (rejecting_driver create_b))
       (snd (Db_sync (rejecting_driver create_b) reordered_module (Some alter_only)
          initial_world))) =
     [''ALTER TABLE IF EXISTS public.b DROP CONSTRAINT IF EXISTS fk_b_a;'',
      ''DROP TABLE IF EXISTS public.a;'',
      ''DROP TABLE IF EXISTS public.b;'',
      ''DROP SCHEMA IF EXISTS public;'',
      ''CREATE SCHEMA IF NOT EXISTS public;'',
      ''CREATE TABLE IF NOT EXISTS public.a (id SERIAL PRIMARY KEY);'',
      ''CREATE TABLE IF NOT EXISTS public.b (id SERIAL PRIMARY KEY, a_id INTEGER NOT NULL);'',
      ''ROLLBACK'']"
    unfolding Db_sync_def sync_sequence_loop_flat sync_statements_eq [symmetric]
      reordered_statements
    by (simp add: sync_eval)
  have ranks: "map (rank \<circ> fst) (sync_iteration (getFolder (script sample_module))) =
     [0, 1, 1, 2, 2, 3, 3, 4]"
    by (simp add: sample_module_def script_eval js_eval)
  have ranks': "map (rank \<circ> fst) (sync_iteration (getFolder (script reordered_module))) =
     [0, 1, 1, 2, 2, 3, 3, 4]"
    by (simp add: reordered_module_def reordered_declarations_def script_eval js_eval)
  show ?thesis
    using sync_statement_order [OF sample_declared h1, where callback = None]
      sync_statement_order [OF reordered_declared h1, where callback = None]
      sync_statement_order [OF reordered_declared h2, where callback = None]
    by (intro conjI sample_declared reordered_declared h1 h2 sample reordered rejected
        ranks ranks')
qed

theorem sync_fail_fast_witness:
  "Db_transaction (rejecting_driver create_b) (Some \<lparr>t_rollbackOnError = Some True\<rparr>)
       initial_world = (Inr 0, opened (rejecting_driver create_b)) \<and>
   sync_statements (getFolder (script sample_module)) =
     [''ALTER TABLE IF EXISTS public.b DROP CONSTRAINT IF EXISTS fk_b_a;'',
      ''DROP TABLE IF EXISTS public.b;'',
      ''DROP TABLE IF EXISTS public.a;'',
      ''DROP SCHEMA IF EXISTS public;'',
      ''CREATE SCHEMA IF NOT EXISTS public;''] @
     create_b #
     [''CREATE TABLE IF NOT EXISTS public.a (id SERIAL PRIMARY KEY);'',
      ''ALTER TABLE IF EXISTS public.b ADD CONSTRAINT fk_b_a FOREIGN KEY (a_id) REFERENCES public.a (id) ON DELETE CASCADE ON UPDATE CASCADE;''] \<and>
   fst (sync_queries_loop (rejecting_driver create_b) 0
     [''ALTER TABLE IF EXISTS public.b DROP CONSTRAINT IF EXISTS fk_b_a;'',
      ''DROP TABLE IF EXISTS public.b;'',
      ''DROP TABLE IF EXISTS public.a;'',
      ''DROP SCHEMA IF EXISTS public;'',
      ''CREATE SCHEMA IF NOT EXISTS public;''] (opened (rejecting_driver create_b))) = Continue \<and>
   executed_statements (trace (snd (Db_sync (rejecting_driver create_b) sample_module
       (Some alter_only) initial_world))) =
     [''COMMIT;'',
      ''ALTER TABLE IF EXISTS public.b DROP CONSTRAINT IF EXISTS fk_b_a;'',
      ''DROP TABLE IF EXISTS public.b;'',
      ''DROP TABLE IF EXISTS public.a;'',
      ''DROP SCHEMA IF EXISTS public;'',
      ''CREATE SCHEMA IF NOT EXISTS public;'',
      create_b,
      ''ROLLBACK''] \<and>
   conn (transactions (snd (Db_sync (rejecting_driver create_b) sample_module
       (Some alter_only) initial_world)) 0) = None \<and>
   Db_transaction accepting_driver (Some \<lparr>t_rollbackOnError = Some True\<rparr>) initial_world =
     (Inr 0, opened accepting_driver) \<and>
   executed_statements (trace (snd (Db_sync accepting_driver sample_module (Some alter_only)
       initial_world))) =
     ''COMMIT;'' # sync_statements (getFolder (script sample_module)) @ [''COMMIT;'']"
proof -
  have h1: "Db_transaction (rejecting_driver create_b) (Some \<lparr>t_rollbackOnError = Some True\<rparr>)
       initial_world = (Inr 0, opened (rejecting_driver create_b))"
    by (simp add: prod_eq_iff sync_eval)
  have h2: "Db_transaction accepting_driver (Some \<lparr>t_rollbackOnError = Some True\<rparr>)
       initial_world = (Inr 0, opened accepting_driver)"
    by (simp add: prod_eq_iff sync_eval)
  have rejected: "executed_statements (trace (snd (Db_sync (rejecting_driver create_b)
       sample_module (Some alter_only) initial_world))) =
     [''COMMIT;'',
      ''ALTER TABLE IF EXISTS public.b DROP CONSTRAINT IF EXISTS fk_b_a;'',
      ''DROP TABLE IF EXISTS public.b;'',
      ''DROP TABLE IF EXISTS public.a;'',
      ''DROP SCHEMA IF EXISTS public;'',
      ''CREATE SCHEMA IF NOT EXISTS public;'',
      create_b,
      ''ROLLBACK''] \<and>
   conn (transactions (snd (Db_sync (rejecting_driver create_b) sample_module
       (Some alter_only) initial_world)) 0) = None"
    unfolding Db_sync_def sync_sequence_loop_flat sync_statements_eq [symmetric] sample_statements
    by (simp add: sync_eval)
  have accepted: "executed_statements (trace (snd (Db_sync accepting_driver sample_module
       (Some alter_only) initial_world))) =
     ''COMMIT;'' # sync_statements (getFolder (script sample_module)) @ [''COMMIT;'']"
    unfolding Db_sync_def sync_sequence_loop_flat sync_statements_eq [symmetric] sample_statements
    by (simp add: sync_eval)
  have pre: "fst (sync_queries_loop (rejecting_driver create_b) 0
     [''ALTER TABLE IF EXISTS public.b DROP CONSTRAINT IF EXISTS fk_b_a;'',
      ''DROP TABLE IF EXISTS public.b;'',
      ''DROP TABLE IF EXISTS public.a;'',
      ''DROP SCHEMA IF EXISTS public;'',
      ''CREATE SCHEMA IF NOT EXISTS public;''] (opened (rejecting_driver create_b))) = Continue"
    by (simp add: sync_eval)
  show ?thesis
    using h1 h2 rejected accepted pre sample_statements
      sync_fail_fast [OF h1, of sample_module None] sync_fail_fast [OF h2, of sample_module None]
    by (simp add: create_b_def)
qed


section \<open>Properties of the model operations\<close>

lemma Transaction_begin_objects [simp]:
  "objects (Transaction_begin drv this c showError w) = objects w"
proof (cases "conn (transactions w this)")
  case None
  then show ?thesis by (rule begin_unbound(3))
next
  case (Some c0)
  then show ?thesis by (simp add: begin_bound)
qed

lemma Transaction_rollback_objects [simp]:
  "objects (Transaction_rollback drv this showError w) = objects w"
proof (cases "conn (transactions w this)")
  case None
  then show ?thesis by (simp add: rollback_unbound)
next
  case (Some c0)
  then show ?thesis by (rule rollback_bound(3))
qed

lemma query_tryHandler_objects [simp]:
  "objects (snd (query_tryHandler drv q vs sq transaction w)) = objects w"
proof (cases transaction)
  case None
  then show ?thesis by (simp add: query_tryHandler_def)
next
  case (Some t)
  show ?thesis
  proof (cases "conn (transactions w t)")
    case (Some c)
    with \<open>transaction = Some t\<close> show ?thesis by (simp add: query_tryHandler_def)
  next
    case None
    obtain r w1 where pc: "pool_connect drv w = (r, w1)" by (cases "pool_connect drv w")
    then have same: "objects w1 = objects w" by (simp only: pool_connect_cases)
    show ?thesis
      using None \<open>transaction = Some t\<close> pc same
      by (cases r) (simp_all add: query_tryHandler_def)
  qed
qed

lemma query_errorHandler_objects [simp]:
  "objects (query_errorHandler drv transaction error w) = objects w"
  by (simp add: query_errorHandler_def split: option.splits)

lemma Pool_query_objects [simp]:
  "objects (snd (Pool_query drv q options w)) = objects w"
  by (simp add: Pool_query_cases query_attempt_def split: sum.splits)

lemma model_query_objects [simp]:
  "objects (snd (model_query drv m q vs transaction w)) = objects w"
  by (simp add: model_query_def)


lemma row_callback_objects [simp]:
  "objects (snd (row_callback drv m verb pkc pk q args transaction w)) = objects w"
proof (cases "values_of args")
  case (Inl error)
  then show ?thesis by (simp add: row_callback_def)
next
  case (Inr vs)
  obtain response w1 where mq: "model_query drv m q vs transaction w = (response, w1)"
    by (cases "model_query drv m q vs transaction w")
  then have "objects w1 = objects w"
    using model_query_objects [of drv m q vs transaction w] by simp
  with Inr mq show ?thesis
    by (simp add: row_callback_def split: sum.splits)
qed


lemma assign_property_objects [simp]:
  "objects (assign_property r key v w) = (objects w)(r := assign_member (objects w r) key v)"
  by (simp add: assign_property_def)











text \<open>
  A world whose references all hold one object, options that only name a \<open>where\<close>, and the
  model of a table whose primary key is the column \<open>__proto__\<close>.
\<close>

definition world_with :: "jsval jsobject \<Rightarrow> world" where
  "world_with obj = initial_world\<lparr>objects := (\<lambda>r. obj), object_count := 1\<rparr>"

definition where_only :: "ref \<Rightarrow> ModelOptions" where
  "where_only r = \<lparr>m_where = Some r, m_transaction = None\<rparr>"


lemma world_with_simps [simp]:
  "objects (world_with obj) r = obj" "trace (world_with obj) = []"
  by (simp_all add: world_with_def initial_world_def)

lemma where_only_simps [simp]:
  "m_where (where_only r) = Some r" "m_transaction (where_only r) = None"
  by (simp_all add: where_only_def)





text \<open>
  What the operations hand back, by the result of their query: a failure becomes \<open>null\<close> and
  a logged message in every operation, a table without primary key and a by-pk query
  without rows too; \<open>find\<close>, \<open>update\<close> and \<open>delete\<close> return the rows, the by-pk operations
  the first row, and \<open>create\<close> returns \<open>rows[0]\<close> unguarded.
\<close>

lemma create_outcome:
  "Model_create drv m body options w =
     (case model_query drv m (create_query m body) (object_values body)
             (Option.bind options m_transaction) w of
        (DbFailed f, w1) \<Rightarrow>
          (None,
           console_log (DbError (''Failed to create data. '' @ message_text (DbFailed f))) w1)
      | (DbSuccess r, w1) \<Rightarrow>
          (Some (case rows r of [] \<Rightarrow> UndefinedValue | x # xs \<Rightarrow> RowValue x), w1))"
  by (simp add: Model_create_def modelHandler_def create_callback_def first_row_def Error_def
      split: prod.splits DbResult.splits)

lemma rows_outcome:
  assumes "NullArg \<notin> set args"
  shows "modelHandler (rows_callback drv m verb q args transaction) w =
     (case model_query drv m q (concat (map object_values (defined_objects args))) transaction w of
        (DbFailed f, w1) \<Rightarrow>
          (None,
           console_log
             (DbError (''Failed to '' @ verb @ '' data. '' @ message_text (DbFailed f))) w1)
      | (DbSuccess r, w1) \<Rightarrow> (Some (RowArray (rows r)), w1))"
  using assms
  by (simp add: modelHandler_def rows_callback_def values_of_def values_loop_eq response_rows_def
      Error_def split: prod.splits DbResult.splits)

lemma row_outcome:
  assumes "NullArg \<notin> set args"
  shows "modelHandler (row_callback drv m verb pkc pk q args transaction) w =
     (case model_query drv m q (concat (map object_values (defined_objects args))) transaction w of
        (DbFailed f, w1) \<Rightarrow>
          (None,
           console_log
             (DbError (''Failed to '' @ verb @ '' data by pk ('' @ pkc @ ''='' @ pk_text pk @
                       ''). '' @ message_text (DbFailed f))) w1)
      | (DbSuccess r, w1) \<Rightarrow>
          (case rows r of
             [] \<Rightarrow>
               (None,
                console_log
                  (DbError (''Failed to '' @ verb @ '' data by pk ('' @ pkc @ ''='' @
                            value_text pk @ ''). No data found'')) w1)
           | x # xs \<Rightarrow> (Some (RowValue x), w1)))"
  using assms
  by (simp add: modelHandler_def row_callback_def values_of_def values_loop_eq first_row_def
      rows_length_def Error_def split: prod.splits DbResult.splits list.splits)

lemma no_primary_key_outcome:
  assumes "pkColumn m = None"
  shows "Model_findByPk drv m pk options w =
      (None, console_log (DbError (err_message (no_primary_key m ''find''))) w)"
    and "Model_updateByPk drv m pk bodyToUpdate options w =
      (None, console_log (DbError (err_message (no_primary_key m ''update''))) w)"
    and "Model_deleteByPk drv m pk options w =
      (None, console_log (DbError (err_message (no_primary_key m ''delete''))) w)"
  using assms
  by (simp_all add: Model_findByPk_def Model_updateByPk_def Model_deleteByPk_def modelHandler_def
      findByPk_callback_def updateByPk_callback_def deleteByPk_callback_def)

text \<open>
  Claim C9 at the input where the code departs from it: the driver resolves the \<open>INSERT\<close> of
  \<open>create({id: 1})\<close> with a result that has no rows. \<open>create\<close> returns \<open>undefined\<close>, which is
  neither the inserted row nor \<open>null\<close>, and logs nothing; the by-pk operations turn the
  same result into \<open>null\<close>.
\<close>

theorem create_without_row_returns_undefined:
  "Model_create accepting_driver model_a [(''id'', Num 1)] None initial_world =
     (Some UndefinedValue,
      initial_world\<lparr>trace :=
        [Executed ThePool ''INSERT INTO public.a (id) VALUES ($1) RETURNING *;'' [Num 1]
           (Inr empty_result)]\<rparr>)"
  by (simp add: create_outcome model_query_def create_query_def table_name_def model_a_def
      new_Placeholder_def pool_eval js_eval generate_count_loop.simps upto.simps)

end
